theory Spec2Isabelle
  imports Main
begin

section \<open>JavaScript values\<close>

text \<open>
  The values the server handles: what \<open>JSON.parse\<close> yields for a request body or a
  backend payload (null, booleans, numbers, strings, arrays, plain objects), plus
  \<open>undefined\<close> (an absent property) and the built-in functions an array inherits
  (\<open>args.sort\<close> on an array is \<open>Array.prototype.sort\<close>).
  \<open>JNum n\<close> is the number whose value is the integer \<open>n\<close>, for \<open>|n| < 2^53\<close>:
  the integers that a JavaScript number holds exactly and prints in plain decimal.
  Fractions and larger magnitudes, which JavaScript rounds or prints with an exponent,
  have no counterpart here. \<open>JObj\<close> lists the own properties in the order JavaScript
  enumerates them, keys distinct. Strings are byte strings.
\<close>

datatype jsval =
    JUndefined
  | JNull
  | JBool bool
  | JNum int
  | JStr string
  | JArr "jsval list"
  | JObj "(string \<times> jsval) list"
  | JFunction string

text \<open>A thrown \<open>Error\<close> is its message; \<open>Inl\<close> is the throw.\<close>

type_synonym 'a thrown = "string + 'a"

definition ebind :: "'a thrown \<Rightarrow> ('a \<Rightarrow> 'b thrown) \<Rightarrow> 'b thrown" where
  "ebind m f = (case m of Inl e \<Rightarrow> Inl e | Inr v \<Rightarrow> f v)"

definition dquote :: char where
  "dquote = CHR 0x22"

definition bslash :: char where
  "bslash = CHR 0x5C"

definition newline :: char where
  "newline = CHR 0x0A"

subsection \<open>Number to string\<close>

definition digit_char :: "nat \<Rightarrow> char" where
  "digit_char d = ''0123456789'' ! d"

fun show_nat :: "nat \<Rightarrow> string" where
  "show_nat n = (if n < 10 then [digit_char n] else show_nat (n div 10) @ [digit_char (n mod 10)])"

declare show_nat.simps [simp del]

definition show_int :: "int \<Rightarrow> string" where
  "show_int i = (if i < 0 then CHR ''-'' # show_nat (nat (- i)) else show_nat (nat i))"

subsection \<open>ToString, truthiness, property reads\<close>

text \<open>
  \<open>ToString\<close> as a template literal \<open>`${v}`\<close> applies it. A plain object prints as
  \<open>[object Object]\<close> through \<open>Object.prototype.toString\<close>, unless an own property
  \<open>toString\<close> (never callable in parsed JSON) shadows it: then \<open>valueOf\<close> yields no
  primitive either and a TypeError is thrown. An array prints as its elements joined by
  commas, \<open>null\<close> and \<open>undefined\<close> elements as the empty string.
\<close>

fun to_string :: "jsval \<Rightarrow> string thrown"
  and join_comma :: "jsval list \<Rightarrow> string thrown"
  and elem_string :: "jsval \<Rightarrow> string thrown" where
  "to_string JUndefined = Inr ''undefined''"
| "to_string JNull = Inr ''null''"
| "to_string (JBool b) = Inr (if b then ''true'' else ''false'')"
| "to_string (JNum n) = Inr (show_int n)"
| "to_string (JStr s) = Inr s"
| "to_string (JArr xs) = join_comma xs"
| "to_string (JObj kvs) =
     (if ''toString'' \<in> set (map fst kvs)
      then Inl ''Cannot convert object to primitive value''
      else Inr ''[object Object]'')"
| "to_string (JFunction f) = Inr (''function '' @ f @ ''() { [native code] }'')"
| "join_comma [] = Inr ''''"
| "join_comma [x] = elem_string x"
| "join_comma (x # y # ys) =
     (case elem_string x of Inl e \<Rightarrow> Inl e
      | Inr a \<Rightarrow> (case join_comma (y # ys) of Inl e \<Rightarrow> Inl e | Inr b \<Rightarrow> Inr (a @ '','' @ b)))"
| "elem_string JUndefined = Inr ''''"
| "elem_string JNull = Inr ''''"
| "elem_string (JBool b) = to_string (JBool b)"
| "elem_string (JNum n) = to_string (JNum n)"
| "elem_string (JStr s) = to_string (JStr s)"
| "elem_string (JArr xs) = to_string (JArr xs)"
| "elem_string (JObj kvs) = to_string (JObj kvs)"
| "elem_string (JFunction f) = to_string (JFunction f)"

fun truthy :: "jsval \<Rightarrow> bool" where
  "truthy JUndefined = False"
| "truthy JNull = False"
| "truthy (JBool b) = b"
| "truthy (JNum n) = (n \<noteq> 0)"
| "truthy (JStr s) = (s \<noteq> [])"
| "truthy (JArr xs) = True"
| "truthy (JObj kvs) = True"
| "truthy (JFunction f) = True"

text \<open>\<open>a || b\<close>\<close>

definition js_or :: "jsval \<Rightarrow> jsval \<Rightarrow> jsval" where
  "js_or a b = (if truthy a then a else b)"

text \<open>A default parameter \<open>f(x = d)\<close> takes \<open>d\<close> exactly when the argument is \<open>undefined\<close>.\<close>

definition default_param :: "jsval \<Rightarrow> jsval \<Rightarrow> jsval" where
  "default_param x d = (if x = JUndefined then d else x)"

text \<open>
  \<open>v.k\<close> for the property names this program reads. Reading a property of
  \<open>undefined\<close> or \<open>null\<close> throws a TypeError; a primitive or a function has none of
  these names except a string's \<open>length\<close>; an array has \<open>length\<close> and the inherited
  methods \<open>map\<close> and \<open>sort\<close>.
\<close>

fun get_prop :: "jsval \<Rightarrow> string \<Rightarrow> jsval thrown" where
  "get_prop JUndefined k = Inl (''Cannot read properties of undefined (reading '' @ [CHR 0x27] @ k @ [CHR 0x27] @ '')'')"
| "get_prop JNull k = Inl (''Cannot read properties of null (reading '' @ [CHR 0x27] @ k @ [CHR 0x27] @ '')'')"
| "get_prop (JObj kvs) k = Inr (case map_of kvs k of None \<Rightarrow> JUndefined | Some v \<Rightarrow> v)"
| "get_prop (JArr xs) k =
     Inr (if k = ''length'' then JNum (int (length xs))
          else if k = ''map'' \<or> k = ''sort'' then JFunction k
          else JUndefined)"
| "get_prop (JStr s) k = Inr (if k = ''length'' then JNum (int (length s)) else JUndefined)"
| "get_prop (JBool b) k = Inr JUndefined"
| "get_prop (JNum n) k = Inr JUndefined"
| "get_prop (JFunction f) k = Inr JUndefined"

subsection \<open>JSON.stringify\<close>

text \<open>
  \<open>JSON.stringify\<close> quotes a string by escaping the double quote, the backslash and the
  control characters below 0x20 (short forms for backspace, form feed, newline, carriage
  return and tab, \<open>\u00XX\<close> in lower-case hex otherwise). A value that is
  \<open>undefined\<close> or a function has no JSON text: the result is \<open>undefined\<close> (here
  \<open>None\<close>), such a member of an object is left out and such an element of an array is
  written \<open>null\<close>.
\<close>

definition hex_char :: "nat \<Rightarrow> char" where
  "hex_char d = ''0123456789abcdef'' ! d"

definition esc_char :: "char \<Rightarrow> string" where
  "esc_char c =
     (if c = dquote then [bslash, dquote]
      else if c = bslash then [bslash, bslash]
      else if c = CHR 0x08 then [bslash, CHR ''b'']
      else if c = CHR 0x0C then [bslash, CHR ''f'']
      else if c = CHR 0x0A then [bslash, CHR ''n'']
      else if c = CHR 0x0D then [bslash, CHR ''r'']
      else if c = CHR 0x09 then [bslash, CHR ''t'']
      else if (of_char c :: nat) < 32
        then [bslash, CHR ''u'', CHR ''0'', CHR ''0'',
              hex_char (of_char c div 16), hex_char (of_char c mod 16)]
      else [c])"

definition escape :: "string \<Rightarrow> string" where
  "escape s = concat (map esc_char s)"

definition json_quote :: "string \<Rightarrow> string" where
  "json_quote s = dquote # escape s @ [dquote]"

fun join_with :: "string \<Rightarrow> string list \<Rightarrow> string" where
  "join_with sep [] = []"
| "join_with sep [x] = x"
| "join_with sep (x # y # ys) = x @ sep @ join_with sep (y # ys)"

fun json_stringify :: "jsval \<Rightarrow> string option"
  and array_items :: "jsval list \<Rightarrow> string list"
  and object_members :: "(string \<times> jsval) list \<Rightarrow> string list" where
  "json_stringify JUndefined = None"
| "json_stringify (JFunction f) = None"
| "json_stringify JNull = Some ''null''"
| "json_stringify (JBool b) = Some (if b then ''true'' else ''false'')"
| "json_stringify (JNum n) = Some (show_int n)"
| "json_stringify (JStr s) = Some (json_quote s)"
| "json_stringify (JArr xs) = Some (''['' @ join_with '','' (array_items xs) @ '']'')"
| "json_stringify (JObj kvs) = Some (''{'' @ join_with '','' (object_members kvs) @ ''}'')"
| "array_items [] = []"
| "array_items (x # xs) =
     (case json_stringify x of None \<Rightarrow> ''null'' | Some s \<Rightarrow> s) # array_items xs"
| "object_members [] = []"
| "object_members ((k, v) # kvs) =
     (case json_stringify v of
        None \<Rightarrow> object_members kvs
      | Some s \<Rightarrow> (json_quote k @ '':'' @ s) # object_members kvs)"

text \<open>\<open>`${JSON.stringify(v)}`\<close>: the text, or \<open>undefined\<close> printed.\<close>

definition stringify_text :: "jsval \<Rightarrow> string" where
  "stringify_text v = (case json_stringify v of None \<Rightarrow> ''undefined'' | Some s \<Rightarrow> s)"

text \<open>\<open>JSON.stringify(v)\<close> as a value.\<close>

definition stringify_value :: "jsval \<Rightarrow> jsval" where
  "stringify_value v = (case json_stringify v of None \<Rightarrow> JUndefined | Some s \<Rightarrow> JStr s)"

text \<open>
  Object spread \<open>{...a, ...b}\<close> on property lists: a key of \<open>b\<close> already present keeps
  its place and takes the new value, a new key is appended. Spreading \<open>undefined\<close>,
  \<open>null\<close> or a primitive without own enumerable properties adds nothing; an array or
  a string spreads its indices. (The keys spread in this program are header names;
  integer-like keys, which JavaScript would enumerate first, do not occur among them.)
\<close>

fun set_prop :: "(string \<times> jsval) list \<Rightarrow> string \<Rightarrow> jsval \<Rightarrow> (string \<times> jsval) list" where
  "set_prop [] k v = [(k, v)]"
| "set_prop ((k', v') # kvs) k v = (if k' = k then (k, v) # kvs else (k', v') # set_prop kvs k v)"

fun own_props :: "jsval \<Rightarrow> (string \<times> jsval) list" where
  "own_props (JObj kvs) = kvs"
| "own_props (JArr xs) = zip (map (\<lambda>i. show_nat i) [0 ..< length xs]) xs"
| "own_props (JStr s) = zip (map (\<lambda>i. show_nat i) [0 ..< length s]) (map (\<lambda>c. JStr [c]) s)"
| "own_props v = []"

definition spread :: "(string \<times> jsval) list \<Rightarrow> jsval \<Rightarrow> (string \<times> jsval) list" where
  "spread base v = foldl (\<lambda>acc (k, x). set_prop acc k x) base (own_props v)"

section \<open>The response cache and the GitHub client\<close>

text \<open>
  \<open>cache\<close> is the module-level \<open>Map\<close> from cache key to \<open>{data, timestamp}\<close>;
  \<open>now\<close> is what \<open>Date.now()\<close> returns (milliseconds); \<open>fetches\<close> logs every call of
  \<open>fetch\<close>, oldest first, with its URL and init object.
\<close>

record cache_entry =
  data :: jsval
  timestamp :: int

record server_state =
  cache :: "string \<rightharpoonup> cache_entry"
  now :: int
  fetches :: "(string \<times> jsval) list"

text \<open>
  What \<open>fetch\<close> does is outside the program: it rejects (a transport fault, with its
  message) or resolves to a response with a status, a status text and a body, whose
  \<open>json()\<close> rejects (\<open>Inl\<close>, the message) or yields the parsed value.
\<close>

datatype fetch_result =
    FetchRejected string
  | Response nat string "jsval thrown"

text \<open>\<open>response.ok\<close>\<close>

definition response_ok :: "nat \<Rightarrow> bool" where
  "response_ok st = (200 \<le> st \<and> st \<le> 299)"

text \<open>
  The environment of the process: the access token, the port, the backend, the base64
  decoder of \<open>Buffer\<close> and the generator of session identifiers (\<open>uuidv4 k\<close> is
  what the call of \<open>uuidv4()\<close> returns that \<open>k\<close> calls precede).
  \<open>backend n url init\<close> is the outcome of the call of \<open>fetch\<close> that \<open>n\<close> calls
  precede, with the milliseconds it takes; indexing by \<open>n\<close> lets the remote service
  answer the same request differently each time.
  \<open>buffer_base64 v\<close> is \<open>Buffer.from(v, 'base64').toString('utf-8')\<close>, which throws
  for some \<open>v\<close>.
\<close>

record environment =
  token :: string
  port :: string
  backend :: "nat \<Rightarrow> string \<Rightarrow> jsval \<Rightarrow> fetch_result \<times> nat"
  buffer_base64 :: "jsval \<Rightarrow> string thrown"
  uuidv4 :: "nat \<Rightarrow> string"

definition CACHE_DURATION :: int where
  "CACHE_DURATION = 60000"

definition baseURL :: string where
  "baseURL = ''https://api.github.com''"

definition cacheKey :: "string \<Rightarrow> jsval \<Rightarrow> string" where
  "cacheKey url options = url @ ''_'' @ stringify_text options"

text \<open>The init object handed to \<open>fetch\<close>: \<open>{ headers: {..., ...options.headers}, ...options }\<close>.\<close>

definition fetch_init :: "environment \<Rightarrow> jsval \<Rightarrow> jsval thrown" where
  "fetch_init env options =
     ebind (get_prop options ''headers'') (\<lambda>h.
       Inr (JObj (spread
         [(''headers'', JObj (spread
             [(''Authorization'', JStr (''token '' @ token env)),
              (''Accept'', JStr ''application/vnd.github.v3+json''),
              (''User-Agent'', JStr ''MCP-GitHub-Server/1.0'')] h))]
         options)))"

text \<open>
  \<open>cached && Date.now() - cached.timestamp < CACHE_DURATION\<close>: the stored data when the
  test passes. An entry is an object, so \<open>cached\<close> is truthy exactly when the key is in
  the map.
\<close>

definition cache_lookup :: "server_state \<Rightarrow> string \<Rightarrow> jsval option" where
  "cache_lookup s key =
     (case cache s key of
        None \<Rightarrow> None
      | Some cached \<Rightarrow>
          if now s - timestamp cached < CACHE_DURATION then Some (data cached) else None)"

definition makeRequest ::
  "environment \<Rightarrow> server_state \<Rightarrow> string \<Rightarrow> jsval \<Rightarrow> jsval thrown \<times> server_state" where
  "makeRequest env s endpoint options =
     (let url = baseURL @ endpoint;
          key = cacheKey url options
      in case cache_lookup s key of
           Some d \<Rightarrow> (Inr d, s)
         | None \<Rightarrow>
            (case fetch_init env options of
               Inl e \<Rightarrow> (Inl e, s)
             | Inr init \<Rightarrow>
                (case backend env (length (fetches s)) url init of (res, ms) \<Rightarrow>
                   let s1 = s\<lparr>fetches := fetches s @ [(url, init)], now := now s + int ms\<rparr>
                   in case res of
                        FetchRejected e \<Rightarrow> (Inl e, s1)
                      | Response st txt body \<Rightarrow>
                          if \<not> response_ok st
                          then (Inl (''GitHub API error: '' @ show_nat st @ '' '' @ txt), s1)
                          else (case body of
                                  Inl e \<Rightarrow> (Inl e, s1)
                                | Inr d \<Rightarrow>
                                    (Inr d, s1\<lparr>cache := (cache s1)(key \<mapsto>
                                       \<lparr>data = d, timestamp = now s1\<rparr>)\<rparr>)))))"

text \<open>
  A template literal is a list of pieces, evaluated left to right; the first piece that
  throws ends it. \<open>tpl v\<close> is \<open>${v}\<close>, \<open>tpl_prop v k\<close> is \<open>${v.k}\<close> and
  \<open>tpl_prop_or v k d\<close> is \<open>${v.k || 'd'}\<close>.
\<close>

fun template :: "string thrown list \<Rightarrow> string thrown" where
  "template [] = Inr []"
| "template (p # ps) =
     (case p of Inl e \<Rightarrow> Inl e
      | Inr a \<Rightarrow> (case template ps of Inl e \<Rightarrow> Inl e | Inr b \<Rightarrow> Inr (a @ b)))"

definition tpl :: "jsval \<Rightarrow> string thrown" where
  "tpl v = to_string v"

definition tpl_prop :: "jsval \<Rightarrow> string \<Rightarrow> string thrown" where
  "tpl_prop v k = ebind (get_prop v k) to_string"

definition tpl_prop_or :: "jsval \<Rightarrow> string \<Rightarrow> string \<Rightarrow> string thrown" where
  "tpl_prop_or v k d = ebind (get_prop v k) (\<lambda>x. to_string (js_or x (JStr d)))"

subsection \<open>The client methods\<close>

definition getRepository ::
  "environment \<Rightarrow> server_state \<Rightarrow> jsval \<Rightarrow> jsval \<Rightarrow> jsval thrown \<times> server_state" where
  "getRepository env s owner repo =
     (case template [Inr ''/repos/'', tpl owner, Inr ''/'', tpl repo] of
        Inl e \<Rightarrow> (Inl e, s)
      | Inr endpoint \<Rightarrow> makeRequest env s endpoint (JObj []))"

definition listRepositories ::
  "environment \<Rightarrow> server_state \<Rightarrow> jsval \<Rightarrow> jsval \<Rightarrow> jsval thrown \<times> server_state" where
  "listRepositories env s per_page0 sort0 =
     (let per_page = default_param per_page0 (JNum 30);
          sort_arg = default_param sort0 (JStr ''updated'')
      in case template [Inr ''/user/repos?per_page='', tpl per_page, Inr ''&sort='', tpl sort_arg] of
           Inl e \<Rightarrow> (Inl e, s)
         | Inr endpoint \<Rightarrow> makeRequest env s endpoint (JObj []))"

definition listIssues ::
  "environment \<Rightarrow> server_state \<Rightarrow> jsval \<Rightarrow> jsval \<Rightarrow> jsval \<Rightarrow> jsval thrown \<times> server_state" where
  "listIssues env s owner repo state0 =
     (let state = default_param state0 (JStr ''open'')
      in case template [Inr ''/repos/'', tpl owner, Inr ''/'', tpl repo,
                        Inr ''/issues?state='', tpl state] of
           Inl e \<Rightarrow> (Inl e, s)
         | Inr endpoint \<Rightarrow> makeRequest env s endpoint (JObj []))"

definition createIssue ::
  "environment \<Rightarrow> server_state \<Rightarrow> jsval \<Rightarrow> jsval \<Rightarrow> jsval \<Rightarrow> jsval thrown \<times> server_state" where
  "createIssue env s owner repo dat =
     (case template [Inr ''/repos/'', tpl owner, Inr ''/'', tpl repo, Inr ''/issues''] of
        Inl e \<Rightarrow> (Inl e, s)
      | Inr endpoint \<Rightarrow>
          makeRequest env s endpoint
            (JObj [(''method'', JStr ''POST''),
                   (''headers'', JObj [(''Content-Type'', JStr ''application/json'')]),
                   (''body'', stringify_value dat)]))"

definition getFileContent ::
  "environment \<Rightarrow> server_state \<Rightarrow> jsval \<Rightarrow> jsval \<Rightarrow> jsval \<Rightarrow> jsval \<Rightarrow>
   jsval thrown \<times> server_state" where
  "getFileContent env s owner repo path ref0 =
     (let ref = default_param ref0 (JStr ''main'')
      in case template [Inr ''/repos/'', tpl owner, Inr ''/'', tpl repo,
                        Inr ''/contents/'', tpl path, Inr ''?ref='', tpl ref] of
           Inl e \<Rightarrow> (Inl e, s)
         | Inr endpoint \<Rightarrow> makeRequest env s endpoint (JObj []))"

section \<open>The tool registry\<close>

text \<open>The descriptors that \<open>tools/list\<close> and \<open>GET /mcp/tools\<close> return, in declaration order.\<close>

definition string_prop :: "string \<Rightarrow> jsval" where
  "string_prop d = JObj [(''type'', JStr ''string''), (''description'', JStr d)]"

definition tool_descriptor ::
  "string \<Rightarrow> string \<Rightarrow> (string \<times> jsval) list \<Rightarrow> string list option \<Rightarrow> jsval" where
  "tool_descriptor n d props req =
     JObj [(''name'', JStr n), (''description'', JStr d),
           (''inputSchema'', JObj ([(''type'', JStr ''object''), (''properties'', JObj props)] @
              (case req of None \<Rightarrow> [] | Some r \<Rightarrow> [(''required'', JArr (map JStr r))])))]"

definition tools :: "jsval list" where
  "tools =
     [tool_descriptor ''github_get_repository'' ''Get information about a GitHub repository''
        [(''owner'', string_prop ''Repository owner''),
         (''repo'', string_prop ''Repository name'')]
        (Some [''owner'', ''repo'']),
      tool_descriptor ''github_list_repositories'' ''List repositories for the authenticated user''
        [(''per_page'', JObj [(''type'', JStr ''number''),
            (''description'', JStr ''Number of results per page (max 100)''),
            (''default'', JNum 30)]),
         (''sort'', JObj [(''type'', JStr ''string''),
            (''enum'', JArr [JStr ''created'', JStr ''updated'', JStr ''pushed'', JStr ''full_name'']),
            (''default'', JStr ''updated'')])]
        None,
      tool_descriptor ''github_list_issues'' ''List issues for a repository''
        [(''owner'', string_prop ''Repository owner''),
         (''repo'', string_prop ''Repository name''),
         (''state'', JObj [(''type'', JStr ''string''),
            (''enum'', JArr [JStr ''open'', JStr ''closed'', JStr ''all'']),
            (''default'', JStr ''open'')])]
        (Some [''owner'', ''repo'']),
      tool_descriptor ''github_create_issue'' ''Create a new issue in a repository''
        [(''owner'', string_prop ''Repository owner''),
         (''repo'', string_prop ''Repository name''),
         (''title'', string_prop ''Issue title''),
         (''body'', string_prop ''Issue body''),
         (''labels'', JObj [(''type'', JStr ''array''),
            (''items'', JObj [(''type'', JStr ''string'')]),
            (''description'', JStr ''Issue labels'')])]
        (Some [''owner'', ''repo'', ''title'']),
      tool_descriptor ''github_get_file_content'' ''Get the content of a file from a repository''
        [(''owner'', string_prop ''Repository owner''),
         (''repo'', string_prop ''Repository name''),
         (''path'', string_prop ''File path''),
         (''ref'', JObj [(''type'', JStr ''string''),
            (''description'', JStr ''Branch/commit/tag reference''),
            (''default'', JStr ''main'')])]
        (Some [''owner'', ''repo'', ''path''])]"

text \<open>The names in the registry, and the \<open>required\<close> list of a descriptor's schema.\<close>

definition tool_names :: "string list" where
  "tool_names = concat (map (\<lambda>t. case get_prop t ''name'' of Inr (JStr n) \<Rightarrow> [n] | _ \<Rightarrow> []) tools)"


section \<open>The dispatcher\<close>

subsection \<open>Formatting a backend payload\<close>

fun map_thrown :: "('a \<Rightarrow> 'b thrown) \<Rightarrow> 'a list \<Rightarrow> 'b list thrown" where
  "map_thrown f [] = Inr []"
| "map_thrown f (x # xs) =
     (case f x of Inl e \<Rightarrow> Inl e
      | Inr y \<Rightarrow> (case map_thrown f xs of Inl e \<Rightarrow> Inl e | Inr ys \<Rightarrow> Inr (y # ys)))"

text \<open>\<open>v.map(f)\<close> for a variable named \<open>vname\<close>: only an array has the method.\<close>

definition array_map :: "string \<Rightarrow> jsval \<Rightarrow> (jsval \<Rightarrow> string thrown) \<Rightarrow> string list thrown" where
  "array_map vname v f =
     (case get_prop v ''map'' of
        Inl e \<Rightarrow> Inl e
      | Inr m \<Rightarrow> (case v of JArr xs \<Rightarrow> map_thrown f xs
                  | _ \<Rightarrow> Inl (vname @ ''.map is not a function'')))"

definition format_repository :: "jsval \<Rightarrow> string thrown" where
  "format_repository repo =
     template [Inr ''Repository: '', tpl_prop repo ''full_name'',
               Inr (newline # ''Description: ''), tpl_prop_or repo ''description'' ''No description'',
               Inr (newline # ''Language: ''), tpl_prop_or repo ''language'' ''Unknown'',
               Inr (newline # ''Stars: ''), tpl_prop repo ''stargazers_count'',
               Inr (newline # ''Forks: ''), tpl_prop repo ''forks_count'',
               Inr (newline # ''Created: ''), tpl_prop repo ''created_at'',
               Inr (newline # ''Updated: ''), tpl_prop repo ''updated_at'',
               Inr (newline # ''URL: ''), tpl_prop repo ''html_url'']"

definition format_repositories :: "jsval \<Rightarrow> string thrown" where
  "format_repositories repos =
     (case array_map ''repos'' repos (\<lambda>repo.
             template [tpl_prop repo ''full_name'', Inr '' - '',
                       tpl_prop_or repo ''description'' ''No description'', Inr '' ('',
                       tpl_prop_or repo ''language'' ''Unknown'', Inr '')'']) of
        Inl e \<Rightarrow> Inl e
      | Inr lines \<Rightarrow>
          (let repoList = join_with [newline] lines
           in template [Inr ''Found '', tpl_prop repos ''length'',
                        Inr ('' repositories:'' @ [newline, newline]), Inr repoList]))"

definition format_issues :: "jsval \<Rightarrow> jsval \<Rightarrow> string thrown" where
  "format_issues args issues =
     (case array_map ''issues'' issues (\<lambda>issue.
             template [Inr ''#'', tpl_prop issue ''number'', Inr '': '', tpl_prop issue ''title'',
                       Inr '' ('', tpl_prop issue ''state'', Inr '') - '',
                       ebind (get_prop issue ''user'') (\<lambda>u. tpl_prop u ''login'')]) of
        Inl e \<Rightarrow> Inl e
      | Inr lines \<Rightarrow>
          (let issueList = join_with [newline] lines
           in template [Inr ''Issues in '', tpl_prop args ''owner'', Inr ''/'', tpl_prop args ''repo'',
                        Inr '' ('', tpl_prop args ''state'', Inr (''):'' @ [newline, newline]),
                        Inr (if issueList \<noteq> [] then issueList else ''No issues found'')]))"

definition format_new_issue :: "jsval \<Rightarrow> string thrown" where
  "format_new_issue newIssue =
     template [Inr ''Created issue #'', tpl_prop newIssue ''number'', Inr '': '',
               tpl_prop newIssue ''title'', Inr (newline # ''URL: ''), tpl_prop newIssue ''html_url'']"

definition format_file :: "environment \<Rightarrow> jsval \<Rightarrow> jsval \<Rightarrow> string thrown" where
  "format_file env args fileData =
     (case get_prop fileData ''type'' of
        Inl e \<Rightarrow> Inl e
      | Inr ty \<Rightarrow>
          if ty \<noteq> JStr ''file'' then Inl ''Path is not a file''
          else (case ebind (get_prop fileData ''content'') (buffer_base64 env) of
                  Inl e \<Rightarrow> Inl e
                | Inr fileContent \<Rightarrow>
                    template [Inr ''File: '', tpl_prop args ''path'', Inr '' ('',
                              tpl_prop fileData ''size'', Inr ('' bytes)'' @ [newline, newline]),
                              Inr fileContent]))"

subsection \<open>The cases of the tool switch\<close>

text \<open>
  Each definition is one \<open>case\<close> of \<open>switch (name)\<close>: it yields the text of the content
  block or throws. \<open>handleJsonRpcRequest\<close> and the handler of \<open>POST /mcp/tools/call\<close>
  carry the same five cases with the same text, so both use these definitions.
\<close>

definition call_get_repository ::
  "environment \<Rightarrow> server_state \<Rightarrow> jsval \<Rightarrow> string thrown \<times> server_state" where
  "call_get_repository env s args =
     (case get_prop args ''owner'' of Inl e \<Rightarrow> (Inl e, s) | Inr owner \<Rightarrow>
      case get_prop args ''repo'' of Inl e \<Rightarrow> (Inl e, s) | Inr repo \<Rightarrow>
      case getRepository env s owner repo of
        (Inl e, s') \<Rightarrow> (Inl e, s')
      | (Inr repo, s') \<Rightarrow> (format_repository repo, s'))"

definition call_list_repositories ::
  "environment \<Rightarrow> server_state \<Rightarrow> jsval \<Rightarrow> string thrown \<times> server_state" where
  "call_list_repositories env s args =
     (case get_prop args ''per_page'' of Inl e \<Rightarrow> (Inl e, s) | Inr per_page \<Rightarrow>
      case get_prop args ''sort'' of Inl e \<Rightarrow> (Inl e, s) | Inr sort_arg \<Rightarrow>
      case listRepositories env s per_page sort_arg of
        (Inl e, s') \<Rightarrow> (Inl e, s')
      | (Inr repos, s') \<Rightarrow> (format_repositories repos, s'))"

definition call_list_issues ::
  "environment \<Rightarrow> server_state \<Rightarrow> jsval \<Rightarrow> string thrown \<times> server_state" where
  "call_list_issues env s args =
     (case get_prop args ''owner'' of Inl e \<Rightarrow> (Inl e, s) | Inr owner \<Rightarrow>
      case get_prop args ''repo'' of Inl e \<Rightarrow> (Inl e, s) | Inr repo \<Rightarrow>
      case get_prop args ''state'' of Inl e \<Rightarrow> (Inl e, s) | Inr state \<Rightarrow>
      case listIssues env s owner repo state of
        (Inl e, s') \<Rightarrow> (Inl e, s')
      | (Inr issues, s') \<Rightarrow> (format_issues args issues, s'))"

definition call_create_issue ::
  "environment \<Rightarrow> server_state \<Rightarrow> jsval \<Rightarrow> string thrown \<times> server_state" where
  "call_create_issue env s args =
     (case get_prop args ''owner'' of Inl e \<Rightarrow> (Inl e, s) | Inr owner \<Rightarrow>
      case get_prop args ''repo'' of Inl e \<Rightarrow> (Inl e, s) | Inr repo \<Rightarrow>
      case get_prop args ''title'' of Inl e \<Rightarrow> (Inl e, s) | Inr title \<Rightarrow>
      case get_prop args ''body'' of Inl e \<Rightarrow> (Inl e, s) | Inr body \<Rightarrow>
      case get_prop args ''labels'' of Inl e \<Rightarrow> (Inl e, s) | Inr labels \<Rightarrow>
      case createIssue env s owner repo
             (JObj [(''title'', title), (''body'', body), (''labels'', labels)]) of
        (Inl e, s') \<Rightarrow> (Inl e, s')
      | (Inr newIssue, s') \<Rightarrow> (format_new_issue newIssue, s'))"

definition call_get_file_content ::
  "environment \<Rightarrow> server_state \<Rightarrow> jsval \<Rightarrow> string thrown \<times> server_state" where
  "call_get_file_content env s args =
     (case get_prop args ''owner'' of Inl e \<Rightarrow> (Inl e, s) | Inr owner \<Rightarrow>
      case get_prop args ''repo'' of Inl e \<Rightarrow> (Inl e, s) | Inr repo \<Rightarrow>
      case get_prop args ''path'' of Inl e \<Rightarrow> (Inl e, s) | Inr path \<Rightarrow>
      case get_prop args ''ref'' of Inl e \<Rightarrow> (Inl e, s) | Inr ref \<Rightarrow>
      case getFileContent env s owner repo path ref of
        (Inl e, s') \<Rightarrow> (Inl e, s')
      | (Inr fileData, s') \<Rightarrow> (format_file env args fileData, s'))"

text \<open>\<open>switch (name)\<close> compares with \<open>===\<close>; the default case throws.\<close>

definition tool_switch ::
  "environment \<Rightarrow> server_state \<Rightarrow> jsval \<Rightarrow> jsval \<Rightarrow> string thrown \<times> server_state" where
  "tool_switch env s name args =
     (if name = JStr ''github_get_repository'' then call_get_repository env s args
      else if name = JStr ''github_list_repositories'' then call_list_repositories env s args
      else if name = JStr ''github_list_issues'' then call_list_issues env s args
      else if name = JStr ''github_create_issue'' then call_create_issue env s args
      else if name = JStr ''github_get_file_content'' then call_get_file_content env s args
      else (case template [Inr ''Unknown tool: '', tpl name] of
              Inl e \<Rightarrow> (Inl e, s)
            | Inr msg \<Rightarrow> (Inl msg, s)))"

text \<open>
  \<open>const { k, ... } = v\<close> where \<open>v\<close> is written \<open>src\<close> in the source: it throws a
  TypeError naming the first property and \<open>src\<close> when \<open>v\<close> is \<open>undefined\<close> or
  \<open>null\<close>.
\<close>

definition destructure :: "jsval \<Rightarrow> string \<Rightarrow> string \<Rightarrow> jsval thrown" where
  "destructure v src k =
     (if v = JUndefined
      then Inl (''Cannot destructure property '' @ [CHR 0x27] @ k @ [CHR 0x27] @ '' of '' @
                [CHR 0x27] @ src @ [CHR 0x27] @ '' as it is undefined.'')
      else if v = JNull
      then Inl (''Cannot destructure property '' @ [CHR 0x27] @ k @ [CHR 0x27] @ '' of '' @
                [CHR 0x27] @ src @ [CHR 0x27] @ '' as it is null.'')
      else get_prop v k)"

definition text_content :: "string \<Rightarrow> jsval" where
  "text_content t = JArr [JObj [(''type'', JStr ''text''), (''text'', JStr t)]]"

subsection \<open>JSON-RPC framing\<close>

text \<open>
  \<open>handleJsonRpcRequest\<close>: the reply object, or a throw (a rejected promise) when the
  message or its \<open>params\<close> cannot be destructured, which happens outside the
  \<open>try\<close> block.
\<close>

definition handleJsonRpcRequest ::
  "environment \<Rightarrow> server_state \<Rightarrow> jsval \<Rightarrow> jsval thrown \<times> server_state" where
  "handleJsonRpcRequest env s message =
     (case destructure message ''message'' ''jsonrpc'' of Inl e \<Rightarrow> (Inl e, s) | Inr jsonrpc \<Rightarrow>
      case destructure message ''message'' ''id'' of Inl e \<Rightarrow> (Inl e, s) | Inr ident \<Rightarrow>
      case destructure message ''message'' ''method'' of Inl e \<Rightarrow> (Inl e, s) | Inr method \<Rightarrow>
      case destructure message ''message'' ''params'' of Inl e \<Rightarrow> (Inl e, s) | Inr params \<Rightarrow>
      if method = JStr ''initialize'' then
        (Inr (JObj [(''jsonrpc'', JStr ''2.0''), (''id'', ident),
           (''result'', JObj [(''protocolVersion'', JStr ''2024-11-05''),
              (''capabilities'', JObj [(''tools'', JObj [])]),
              (''serverInfo'', JObj [(''name'', JStr ''github-mcp-server''),
                                     (''version'', JStr ''1.0.0'')])])]), s)
      else if method = JStr ''tools/list'' then
        (Inr (JObj [(''jsonrpc'', JStr ''2.0''), (''id'', ident),
           (''result'', JObj [(''tools'', JArr tools)])]), s)
      else if method = JStr ''tools/call'' then
        (case destructure params ''params'' ''name'' of Inl e \<Rightarrow> (Inl e, s) | Inr name \<Rightarrow>
         case destructure params ''params'' ''arguments'' of Inl e \<Rightarrow> (Inl e, s) | Inr args \<Rightarrow>
         case tool_switch env s name args of
           (Inr content, s') \<Rightarrow>
             (Inr (JObj [(''jsonrpc'', JStr ''2.0''), (''id'', ident),
                (''result'', JObj [(''content'', text_content content)])]), s')
         | (Inl e, s') \<Rightarrow>
             (Inr (JObj [(''jsonrpc'', JStr ''2.0''), (''id'', ident),
                (''error'', JObj [(''code'', JNum (- 32000)), (''message'', JStr e)])]), s'))
      else
        (Inr (JObj [(''jsonrpc'', JStr ''2.0''), (''id'', ident),
           (''error'', JObj [(''code'', JNum (- 32601)), (''message'', JStr ''Method not found'')])]), s))"

record http_response =
  status :: nat
  json :: jsval

text \<open>
  \<open>POST /sse\<close>: the reply of the handler with status 200, or status 500 and an error
  envelope when the handler throws. Reading \<open>req.body.id\<close> in the \<open>catch\<close> block
  throws in its turn when the body is \<open>undefined\<close> or \<open>null\<close>.
\<close>

definition post_sse ::
  "environment \<Rightarrow> server_state \<Rightarrow> jsval \<Rightarrow> http_response thrown \<times> server_state" where
  "post_sse env s body =
     (case handleJsonRpcRequest env s body of
        (Inr response, s') \<Rightarrow> (Inr \<lparr>status = 200, json = response\<rparr>, s')
      | (Inl e, s') \<Rightarrow>
          (case get_prop body ''id'' of
             Inl e' \<Rightarrow> (Inl e', s')
           | Inr ident \<Rightarrow>
               (Inr \<lparr>status = 500, json = JObj [(''jsonrpc'', JStr ''2.0''), (''id'', ident),
                  (''error'', JObj [(''code'', JNum (- 32603)), (''message'', JStr e)])]\<rparr>, s')))"

subsection \<open>Direct-call framing\<close>

text \<open>\<open>POST /mcp/tools/call\<close>: everything runs inside the \<open>try\<close> block.\<close>

definition error_block :: "string \<Rightarrow> http_response" where
  "error_block e =
     \<lparr>status = 500,
      json = JObj [(''content'', text_content (''Error: '' @ e)), (''isError'', JBool True)]\<rparr>"

definition post_mcp_tools_call ::
  "environment \<Rightarrow> server_state \<Rightarrow> jsval \<Rightarrow> http_response \<times> server_state" where
  "post_mcp_tools_call env s body =
     (case destructure body ''req.body'' ''name'' of Inl e \<Rightarrow> (error_block e, s) | Inr name \<Rightarrow>
      case destructure body ''req.body'' ''arguments'' of Inl e \<Rightarrow> (error_block e, s) | Inr args \<Rightarrow>
      case tool_switch env s name args of
        (Inr content, s') \<Rightarrow>
          (\<lparr>status = 200, json = JObj [(''content'', text_content content)]\<rparr>, s')
      | (Inl e, s') \<Rightarrow> (error_block e, s'))"

subsection \<open>Call-tool requests\<close>

text \<open>
  The message of a \<open>tools/call\<close> request under the JSON-RPC framing, and the body of
  a direct call.
\<close>

definition rpc_call :: "jsval \<Rightarrow> jsval \<Rightarrow> jsval \<Rightarrow> jsval" where
  "rpc_call ident name args =
     JObj [(''jsonrpc'', JStr ''2.0''), (''id'', ident), (''method'', JStr ''tools/call''),
           (''params'', JObj [(''name'', name), (''arguments'', args)])]"

definition direct_call :: "jsval \<Rightarrow> jsval \<Rightarrow> jsval" where
  "direct_call name args = JObj [(''name'', name), (''arguments'', args)]"

definition rpc_result :: "jsval \<Rightarrow> string \<Rightarrow> jsval" where
  "rpc_result ident content =
     JObj [(''jsonrpc'', JStr ''2.0''), (''id'', ident),
           (''result'', JObj [(''content'', text_content content)])]"

definition rpc_error :: "jsval \<Rightarrow> int \<Rightarrow> string \<Rightarrow> jsval" where
  "rpc_error ident code msg =
     JObj [(''jsonrpc'', JStr ''2.0''), (''id'', ident),
           (''error'', JObj [(''code'', JNum code), (''message'', JStr msg)])]"

text \<open>
  The backend request of a call: the endpoint and the options that the case of the switch
  for \<open>name\<close> passes to \<open>makeRequest\<close> through its client method, or the throw that
  precedes it. \<open>tool_format\<close> is what the same case does with the payload that
  \<open>makeRequest\<close> returns. Lemma \<open>tool_switch_factor\<close> below shows that the switch is
  the composition of the two around \<open>makeRequest\<close>.
\<close>

definition tool_request :: "jsval \<Rightarrow> jsval \<Rightarrow> (string \<times> jsval) thrown" where
  "tool_request name args =
     (if name = JStr ''github_get_repository'' then
        ebind (get_prop args ''owner'') (\<lambda>owner. ebind (get_prop args ''repo'') (\<lambda>repo.
        ebind (template [Inr ''/repos/'', tpl owner, Inr ''/'', tpl repo]) (\<lambda>endpoint.
        Inr (endpoint, JObj []))))
      else if name = JStr ''github_list_repositories'' then
        ebind (get_prop args ''per_page'') (\<lambda>per_page. ebind (get_prop args ''sort'') (\<lambda>sort_arg.
        ebind (template [Inr ''/user/repos?per_page='', tpl (default_param per_page (JNum 30)),
                         Inr ''&sort='', tpl (default_param sort_arg (JStr ''updated''))]) (\<lambda>endpoint.
        Inr (endpoint, JObj []))))
      else if name = JStr ''github_list_issues'' then
        ebind (get_prop args ''owner'') (\<lambda>owner. ebind (get_prop args ''repo'') (\<lambda>repo.
        ebind (get_prop args ''state'') (\<lambda>state.
        ebind (template [Inr ''/repos/'', tpl owner, Inr ''/'', tpl repo, Inr ''/issues?state='',
                         tpl (default_param state (JStr ''open''))]) (\<lambda>endpoint.
        Inr (endpoint, JObj [])))))
      else if name = JStr ''github_create_issue'' then
        ebind (get_prop args ''owner'') (\<lambda>owner. ebind (get_prop args ''repo'') (\<lambda>repo.
        ebind (get_prop args ''title'') (\<lambda>title. ebind (get_prop args ''body'') (\<lambda>body.
        ebind (get_prop args ''labels'') (\<lambda>labels.
        ebind (template [Inr ''/repos/'', tpl owner, Inr ''/'', tpl repo, Inr ''/issues'']) (\<lambda>endpoint.
        Inr (endpoint,
             JObj [(''method'', JStr ''POST''),
                   (''headers'', JObj [(''Content-Type'', JStr ''application/json'')]),
                   (''body'', stringify_value
                      (JObj [(''title'', title), (''body'', body), (''labels'', labels)]))])))))))
      else if name = JStr ''github_get_file_content'' then
        ebind (get_prop args ''owner'') (\<lambda>owner. ebind (get_prop args ''repo'') (\<lambda>repo.
        ebind (get_prop args ''path'') (\<lambda>path. ebind (get_prop args ''ref'') (\<lambda>ref.
        ebind (template [Inr ''/repos/'', tpl owner, Inr ''/'', tpl repo, Inr ''/contents/'', tpl path,
                         Inr ''?ref='', tpl (default_param ref (JStr ''main''))]) (\<lambda>endpoint.
        Inr (endpoint, JObj []))))))
      else
        (case template [Inr ''Unknown tool: '', tpl name] of
           Inl e \<Rightarrow> Inl e
         | Inr msg \<Rightarrow> Inl msg))"

definition tool_format :: "environment \<Rightarrow> jsval \<Rightarrow> jsval \<Rightarrow> jsval \<Rightarrow> string thrown" where
  "tool_format env name args payload =
     (if name = JStr ''github_get_repository'' then format_repository payload
      else if name = JStr ''github_list_repositories'' then format_repositories payload
      else if name = JStr ''github_list_issues'' then format_issues args payload
      else if name = JStr ''github_create_issue'' then format_new_issue payload
      else format_file env args payload)"


subsection \<open>A small deployment for concrete runs\<close>

text \<open>
  A backend that answers every request with status 200 and one fixed repository
  payload after 7 ms, one that answers 404, and a server that has just started. The
  session identifiers are \<open>u\<close>, \<open>uu\<close>, \<open>uuu\<close> and so on.
\<close>

definition demo_payload :: jsval where
  "demo_payload =
     JObj [(''full_name'', JStr ''acme/widgets''), (''number'', JNum 7),
           (''title'', JStr ''Leak''), (''type'', JStr ''dir'')]"

definition demo_env :: environment where
  "demo_env =
     \<lparr>token = ''t0'', port = ''3000'',
      backend = (\<lambda>n url init. (Response 200 ''OK'' (Inr demo_payload), 7)),
      buffer_base64 = (\<lambda>v. case v of JStr b \<Rightarrow> Inr b | _ \<Rightarrow> Inl ''The first argument must be of type string''),
      uuidv4 = (\<lambda>k. replicate (Suc k) (CHR ''u''))\<rparr>"


definition started :: server_state where
  "started = \<lparr>cache = Map.empty, now = 1000, fetches = []\<rparr>"

text \<open>
  A server whose cache holds the payload of \<open>/repos/acme/widgets\<close>, stored at time 0,
  with the clock at \<open>t\<close>.
\<close>

definition warm :: "int \<Rightarrow> server_state" where
  "warm t =
     \<lparr>cache = [cacheKey (baseURL @ ''/repos/acme/widgets'') (JObj []) \<mapsto>
                \<lparr>data = demo_payload, timestamp = 0\<rparr>],
      now = t, fetches = []\<rparr>"

text \<open>The init object of a request made with the default options \<open>{}\<close>.\<close>

definition default_init :: "environment \<Rightarrow> jsval" where
  "default_init env =
     JObj [(''headers'', JObj [(''Authorization'', JStr (''token '' @ token env)),
              (''Accept'', JStr ''application/vnd.github.v3+json''),
              (''User-Agent'', JStr ''MCP-GitHub-Server/1.0'')])]"

text \<open>Arguments naming the repository \<open>acme/widgets\<close>, and the path \<open>src\<close> in it.\<close>

definition repo_args :: jsval where
  "repo_args = JObj [(''owner'', JStr ''acme''), (''repo'', JStr ''widgets'')]"

definition path_args :: jsval where
  "path_args = JObj [(''owner'', JStr ''acme''), (''repo'', JStr ''widgets''), (''path'', JStr ''src'')]"

text \<open>Arguments of a new issue in \<open>acme/widgets\<close>.\<close>

definition issue_args :: jsval where
  "issue_args = JObj [(''owner'', JStr ''acme''), (''repo'', JStr ''widgets''), (''title'', JStr ''Leak'')]"

text \<open>The options and the init object of the request that creates that issue.\<close>

definition issue_options :: jsval where
  "issue_options =
     JObj [(''method'', JStr ''POST''),
           (''headers'', JObj [(''Content-Type'', JStr ''application/json'')]),
           (''body'', stringify_value
              (JObj [(''title'', JStr ''Leak''), (''body'', JUndefined), (''labels'', JUndefined)]))]"

definition issue_init :: jsval where
  "issue_init =
     JObj [(''headers'', JObj [(''Content-Type'', JStr ''application/json'')]),
           (''method'', JStr ''POST''),
           (''body'', stringify_value
              (JObj [(''title'', JStr ''Leak''), (''body'', JUndefined), (''labels'', JUndefined)]))]"



text \<open>
  A text in which every double quote directly follows a backslash, \<open>p\<close> being the
  character before the text. Quoted JSON strings are of this kind inside their quotes.
\<close>

fun guarded_from :: "char \<Rightarrow> string \<Rightarrow> bool" where
  "guarded_from p [] = True"
| "guarded_from p (c # cs) = ((c = dquote \<longrightarrow> p = bslash) \<and> guarded_from c cs)"

text \<open>The text of \<open>JSON.stringify\<close> for the options of \<open>createIssue\<close>, up to the body.\<close>

definition post_prefix :: string where
  "post_prefix =
     ''{'' @ json_quote ''method'' @ '':'' @ json_quote ''POST'' @ '','' @
     json_quote ''headers'' @ '':'' @ ''{'' @ json_quote ''Content-Type'' @ '':'' @
     json_quote ''application/json'' @ ''}'' @ '','' @ json_quote ''body''"


section \<open>Streaming sessions\<close>

text \<open>
  \<open>GET /sse\<close> and what follows it. A connection is named by a number, which stands for
  its \<open>req\<close> and \<open>res\<close> objects. \<open>sessions\<close> is the module-level \<open>Map\<close> from session
  identifier to \<open>{res, id}\<close>; \<open>written c\<close> lists the frames written to the response of
  connection \<open>c\<close>, oldest first; \<open>timers\<close> holds the intervals that \<open>setInterval\<close>
  created and \<open>clearInterval\<close> has not cleared, each with the response its callback
  writes to, its period and the time it is due next; \<open>listeners c\<close> is what the
  \<open>close\<close> listener of connection \<open>c\<close> closes over: the interval and the session
  identifier. \<open>timer_count\<close> and \<open>uuid_count\<close> count the calls of \<open>setInterval\<close> and
  \<open>uuidv4\<close>; \<open>clock\<close> is the time in milliseconds.
\<close>

record session =
  session_res :: nat
  session_id :: string

record timer =
  target :: nat
  period :: int
  due :: int

record sse_state =
  sessions :: "string \<rightharpoonup> session"
  written :: "nat \<Rightarrow> string list"
  timers :: "(nat \<times> timer) list"
  listeners :: "nat \<rightharpoonup> nat \<times> string"
  timer_count :: nat
  uuid_count :: nat
  clock :: int

text \<open>The frame sent first, which names the callback address, and the keepalive frame.\<close>

definition handshake :: "environment \<Rightarrow> string" where
  "handshake env =
     ''data: {'' @ json_quote ''jsonrpc'' @ '':'' @ json_quote ''2.0'' @ '','' @
     json_quote ''method'' @ '':'' @ json_quote ''endpoint'' @ '','' @
     json_quote ''params'' @ '':{'' @ json_quote ''uri'' @ '':'' @
     [dquote] @ ''http://localhost:'' @ port env @ ''/sse'' @ [dquote] @ ''}}'' @
     [newline, newline]"

definition ping :: string where
  "ping = '':ping'' @ [newline, newline]"

text \<open>
  The handler of \<open>GET /sse\<close> for connection \<open>c\<close>: a new identifier, the session stored,
  the handshake written, the interval of 30000 ms created and the \<open>close\<close> listener
  registered.
\<close>

definition sse_open :: "environment \<Rightarrow> sse_state \<Rightarrow> nat \<Rightarrow> sse_state" where
  "sse_open env st c =
     (let sessionId = uuidv4 env (uuid_count st);
          keepAliveInterval = timer_count st
      in st\<lparr>uuid_count := Suc (uuid_count st),
            sessions := (sessions st)(sessionId \<mapsto> \<lparr>session_res = c, session_id = sessionId\<rparr>),
            written := (written st)(c := written st c @ [handshake env]),
            timer_count := Suc (timer_count st),
            timers := timers st @
              [(keepAliveInterval, \<lparr>target = c, period = 30000, due = clock st + 30000\<rparr>)],
            listeners := (listeners st)(c \<mapsto> (keepAliveInterval, sessionId))\<rparr>)"

text \<open>
  The \<open>close\<close> event of connection \<open>c\<close>: its listener, if one is registered, clears the
  interval and deletes the session.
\<close>

definition sse_close :: "sse_state \<Rightarrow> nat \<Rightarrow> sse_state" where
  "sse_close st c =
     (case listeners st c of
        None \<Rightarrow> st
      | Some (keepAliveInterval, sessionId) \<Rightarrow>
          st\<lparr>timers := filter (\<lambda>(t, tm). t \<noteq> keepAliveInterval) (timers st),
             sessions := (sessions st)(sessionId := None)\<rparr>)"

text \<open>
  Time passes one millisecond at a time. Every interval due at the new time runs its
  callback, which writes one keepalive frame to its response, and is due again one
  period later; an interval that was cleared is not in \<open>timers\<close> and never runs.
\<close>

definition fire :: "(nat \<Rightarrow> string list) \<Rightarrow> (nat \<times> timer) list \<Rightarrow> nat \<Rightarrow> string list" where
  "fire w ts = foldl (\<lambda>w (t, tm). w(target tm := w (target tm) @ [ping])) w ts"

definition step_ms :: "sse_state \<Rightarrow> sse_state" where
  "step_ms st =
     (let c = clock st + 1
      in st\<lparr>clock := c,
            written := fire (written st) (filter (\<lambda>(t, tm). due tm = c) (timers st)),
            timers := map (\<lambda>(t, tm). if due tm = c then (t, tm\<lparr>due := c + period tm\<rparr>) else (t, tm))
                        (timers st)\<rparr>)"

fun elapse :: "nat \<Rightarrow> sse_state \<Rightarrow> sse_state" where
  "elapse 0 st = st"
| "elapse (Suc n) st = step_ms (elapse n st)"

text \<open>What happens to the server: a client connects, a client goes away, time passes.\<close>

datatype sse_event = Connect nat | Disconnect nat | Elapse nat

fun sse_step :: "environment \<Rightarrow> sse_state \<Rightarrow> sse_event \<Rightarrow> sse_state" where
  "sse_step env st (Connect c) = sse_open env st c"
| "sse_step env st (Disconnect c) = sse_close st c"
| "sse_step env st (Elapse n) = elapse n st"

definition sse_run :: "environment \<Rightarrow> sse_state \<Rightarrow> sse_event list \<Rightarrow> sse_state" where
  "sse_run env st evs = foldl (sse_step env) st evs"

text \<open>The events that concern connection \<open>c\<close>, and the milliseconds that a run takes.\<close>

fun concerns :: "nat \<Rightarrow> sse_event \<Rightarrow> bool" where
  "concerns c (Connect c') = (c' = c)"
| "concerns c (Disconnect c') = (c' = c)"
| "concerns c (Elapse n) = False"

fun duration :: "sse_event list \<Rightarrow> nat" where
  "duration [] = 0"
| "duration (Elapse n # evs) = n + duration evs"
| "duration (e # evs) = duration evs"

text \<open>
  The states that the handlers produce from a start: every interval and every listener
  was created by an earlier call, and every session by an earlier identifier. A
  connection is new when nothing refers to it yet.
\<close>

definition sse_wf :: "environment \<Rightarrow> sse_state \<Rightarrow> bool" where
  "sse_wf env st =
     ((\<forall>(t, tm) \<in> set (timers st). t < timer_count st)
      \<and> (\<forall>c t sid. listeners st c = Some (t, sid) \<longrightarrow>
            t < timer_count st \<and> (\<exists>k < uuid_count st. sid = uuidv4 env k))
      \<and> (\<forall>sid \<in> dom (sessions st). \<exists>k < uuid_count st. sid = uuidv4 env k))"

definition new_connection :: "sse_state \<Rightarrow> nat \<Rightarrow> bool" where
  "new_connection st c =
     (listeners st c = None \<and> (\<forall>(t, tm) \<in> set (timers st). target tm \<noteq> c))"

definition sse_started :: sse_state where
  "sse_started =
     \<lparr>sessions = Map.empty, written = (\<lambda>c. []), timers = [], listeners = Map.empty,
      timer_count = 0, uuid_count = 0, clock = 0\<rparr>"

text \<open>
  What holds of a session \<open>m\<close> milliseconds after it was opened on connection \<open>c\<close>
  with interval \<open>t0\<close> and identifier \<open>sid\<close>, the frames before its first keepalive
  being \<open>base\<close>; and of a connection that no interval writes to.
\<close>

definition live_session ::
  "nat \<Rightarrow> nat \<Rightarrow> string \<Rightarrow> string list \<Rightarrow> nat \<Rightarrow> sse_state \<Rightarrow> bool" where
  "live_session c t0 sid base m st =
     (filter (\<lambda>(t, tm). t = t0 \<or> target tm = c) (timers st) =
        [(t0, \<lparr>target = c, period = 30000, due = clock st + 30000 - int (m mod 30000)\<rparr>)]
      \<and> listeners st c = Some (t0, sid)
      \<and> sessions st sid = Some \<lparr>session_res = c, session_id = sid\<rparr>
      \<and> (\<forall>c' t s. c' \<noteq> c \<longrightarrow> listeners st c' = Some (t, s) \<longrightarrow> t \<noteq> t0 \<and> s \<noteq> sid)
      \<and> written st c = base @ replicate (m div 30000) ping)"

definition quiet :: "sse_state \<Rightarrow> nat \<Rightarrow> bool" where
  "quiet st c = (\<forall>(t, tm) \<in> set (timers st). target tm \<noteq> c)"

section \<open>The switch as request, cache and format\<close>

lemma makeRequest_hit:
  "cache_lookup s (cacheKey (baseURL @ endpoint) options) = Some d \<Longrightarrow>
   makeRequest env s endpoint options = (Inr d, s)"
  by (simp add: makeRequest_def)

lemma factor_get_repository:
  "call_get_repository env s args =
     (case tool_request (JStr ''github_get_repository'') args of
        Inl e \<Rightarrow> (Inl e, s)
      | Inr (endpoint, options) \<Rightarrow>
          (case makeRequest env s endpoint options of
             (Inl e, s') \<Rightarrow> (Inl e, s')
           | (Inr d, s') \<Rightarrow> (format_repository d, s')))"
  unfolding call_get_repository_def tool_request_def getRepository_def ebind_def
  by (simp split: sum.split)

lemma factor_list_repositories:
  "call_list_repositories env s args =
     (case tool_request (JStr ''github_list_repositories'') args of
        Inl e \<Rightarrow> (Inl e, s)
      | Inr (endpoint, options) \<Rightarrow>
          (case makeRequest env s endpoint options of
             (Inl e, s') \<Rightarrow> (Inl e, s')
           | (Inr d, s') \<Rightarrow> (format_repositories d, s')))"
  unfolding call_list_repositories_def tool_request_def listRepositories_def ebind_def Let_def
  by (simp split: sum.split)

lemma factor_list_issues:
  "call_list_issues env s args =
     (case tool_request (JStr ''github_list_issues'') args of
        Inl e \<Rightarrow> (Inl e, s)
      | Inr (endpoint, options) \<Rightarrow>
          (case makeRequest env s endpoint options of
             (Inl e, s') \<Rightarrow> (Inl e, s')
           | (Inr d, s') \<Rightarrow> (format_issues args d, s')))"
  unfolding call_list_issues_def tool_request_def listIssues_def ebind_def Let_def
  by (simp split: sum.split)

lemma factor_create_issue:
  "call_create_issue env s args =
     (case tool_request (JStr ''github_create_issue'') args of
        Inl e \<Rightarrow> (Inl e, s)
      | Inr (endpoint, options) \<Rightarrow>
          (case makeRequest env s endpoint options of
             (Inl e, s') \<Rightarrow> (Inl e, s')
           | (Inr d, s') \<Rightarrow> (format_new_issue d, s')))"
  unfolding call_create_issue_def tool_request_def createIssue_def ebind_def Let_def
  by (simp split: sum.split)

lemma factor_get_file_content:
  "call_get_file_content env s args =
     (case tool_request (JStr ''github_get_file_content'') args of
        Inl e \<Rightarrow> (Inl e, s)
      | Inr (endpoint, options) \<Rightarrow>
          (case makeRequest env s endpoint options of
             (Inl e, s') \<Rightarrow> (Inl e, s')
           | (Inr d, s') \<Rightarrow> (format_file env args d, s')))"
  unfolding call_get_file_content_def tool_request_def getFileContent_def ebind_def Let_def
  by (simp split: sum.split)

lemma tool_names_eq:
  "tool_names = [''github_get_repository'', ''github_list_repositories'', ''github_list_issues'',
     ''github_create_issue'', ''github_get_file_content'']"
  by (simp add: tool_names_def tools_def tool_descriptor_def)

lemma tool_request_unknown:
  "name \<notin> JStr ` set tool_names \<Longrightarrow>
   tool_request name args =
     (case template [Inr ''Unknown tool: '', tpl name] of Inl e \<Rightarrow> Inl e | Inr msg \<Rightarrow> Inl msg)"
  unfolding tool_request_def tool_names_eq by auto

lemma tool_switch_unknown:
  "name \<notin> JStr ` set tool_names \<Longrightarrow>
   tool_switch env s name args =
     (case template [Inr ''Unknown tool: '', tpl name] of Inl e \<Rightarrow> (Inl e, s) | Inr msg \<Rightarrow> (Inl msg, s))"
  unfolding tool_switch_def tool_names_eq by auto


lemma switch_get_repository: "tool_switch env s (JStr ''github_get_repository'') args = call_get_repository env s args"
  by (simp add: tool_switch_def)
lemma switch_list_repositories: "tool_switch env s (JStr ''github_list_repositories'') args = call_list_repositories env s args"
  by (simp add: tool_switch_def)
lemma switch_list_issues: "tool_switch env s (JStr ''github_list_issues'') args = call_list_issues env s args"
  by (simp add: tool_switch_def)
lemma switch_create_issue: "tool_switch env s (JStr ''github_create_issue'') args = call_create_issue env s args"
  by (simp add: tool_switch_def)
lemma switch_get_file_content: "tool_switch env s (JStr ''github_get_file_content'') args = call_get_file_content env s args"
  by (simp add: tool_switch_def)
lemma format_get_repository: "tool_format env (JStr ''github_get_repository'') args d = format_repository d"
  by (simp add: tool_format_def)
lemma format_list_repositories: "tool_format env (JStr ''github_list_repositories'') args d = format_repositories d"
  by (simp add: tool_format_def)
lemma format_list_issues: "tool_format env (JStr ''github_list_issues'') args d = format_issues args d"
  by (simp add: tool_format_def)
lemma format_create_issue: "tool_format env (JStr ''github_create_issue'') args d = format_new_issue d"
  by (simp add: tool_format_def)
lemma format_get_file_content: "tool_format env (JStr ''github_get_file_content'') args d = format_file env args d"
  by (simp add: tool_format_def)


lemma known_tool_iff:
  "name \<in> JStr ` set tool_names \<longleftrightarrow>
     name = JStr ''github_get_repository'' \<or> name = JStr ''github_list_repositories'' \<or>
     name = JStr ''github_list_issues'' \<or> name = JStr ''github_create_issue'' \<or>
     name = JStr ''github_get_file_content''"
  unfolding tool_names_eq by (simp only: list.set image_insert image_empty insert_iff empty_iff simp_thms)

lemma tool_switch_factor:
  "tool_switch env s name args =
     (case tool_request name args of
        Inl e \<Rightarrow> (Inl e, s)
      | Inr (endpoint, options) \<Rightarrow>
          (case makeRequest env s endpoint options of
             (Inl e, s') \<Rightarrow> (Inl e, s')
           | (Inr d, s') \<Rightarrow> (tool_format env name args d, s')))"
proof (cases "name \<in> JStr ` set tool_names")
  case True
  from True [unfolded known_tool_iff] show ?thesis
  proof (elim disjE)
    assume 1: "name = JStr ''github_get_repository''"
    show ?thesis unfolding 1 switch_get_repository format_get_repository by (rule factor_get_repository)
  next
    assume 2: "name = JStr ''github_list_repositories''"
    show ?thesis unfolding 2 switch_list_repositories format_list_repositories by (rule factor_list_repositories)
  next
    assume 3: "name = JStr ''github_list_issues''"
    show ?thesis unfolding 3 switch_list_issues format_list_issues by (rule factor_list_issues)
  next
    assume 4: "name = JStr ''github_create_issue''"
    show ?thesis unfolding 4 switch_create_issue format_create_issue by (rule factor_create_issue)
  next
    assume 5: "name = JStr ''github_get_file_content''"
    show ?thesis unfolding 5 switch_get_file_content format_get_file_content by (rule factor_get_file_content)
  qed
next
  case False
  then show ?thesis
    by (simp add: tool_switch_unknown tool_request_unknown split: sum.split)
qed

subsection \<open>What a request does to the cache\<close>

lemma makeRequest_failure_cache:
  "makeRequest env s endpoint options = (Inl e, s1) \<Longrightarrow> cache s1 = cache s"
  by (auto simp: makeRequest_def Let_def split: option.splits sum.splits prod.splits fetch_result.splits if_splits)

lemma makeRequest_success_entry:
  "makeRequest env s endpoint options = (Inr d, s1) \<Longrightarrow>
   \<exists>e. cache s1 (cacheKey (baseURL @ endpoint) options) = Some e \<and> data e = d"
  by (auto simp: makeRequest_def Let_def cache_lookup_def split: option.splits sum.splits prod.splits fetch_result.splits if_splits)


lemma makeRequest_again:
  assumes "makeRequest env s endpoint options = (Inr d, s1)"
    and "cache s1 (cacheKey (baseURL @ endpoint) options) = Some e"
    and "t2 - timestamp e < CACHE_DURATION"
  shows "makeRequest env (s1\<lparr>now := t2\<rparr>) endpoint options = (Inr d, s1\<lparr>now := t2\<rparr>)"
proof -
  from makeRequest_success_entry [OF assms(1)] assms(2) have "data e = d" by auto
  with assms(2,3) have "cache_lookup (s1\<lparr>now := t2\<rparr>) (cacheKey (baseURL @ endpoint) options) = Some d"
    by (simp add: cache_lookup_def)
  then show ?thesis by (rule makeRequest_hit)
qed


subsection \<open>The handlers around the switch\<close>

lemma destructure_Inr:
  "destructure v src k = Inr x \<Longrightarrow> get_prop v k = Inr x \<and> v \<noteq> JUndefined \<and> v \<noteq> JNull"
  by (auto simp: destructure_def split: if_splits)

lemma destructure_total:
  "v \<noteq> JUndefined \<Longrightarrow> v \<noteq> JNull \<Longrightarrow> \<exists>x. destructure v src k = Inr x \<and> get_prop v k = Inr x"
  by (cases v) (simp_all add: destructure_def)

lemma handler_reply_shape:
  assumes "handleJsonRpcRequest env s message = (Inr reply, s')"
  shows "\<exists>ident member. get_prop message ''id'' = Inr ident \<and>
           reply = JObj [(''jsonrpc'', JStr ''2.0''), (''id'', ident), member]"
proof -
  from assms obtain j ident m p where
    d: "destructure message ''message'' ''jsonrpc'' = Inr j" "destructure message ''message'' ''id'' = Inr ident"
       "destructure message ''message'' ''method'' = Inr m" "destructure message ''message'' ''params'' = Inr p"
    unfolding handleJsonRpcRequest_def by (auto split: sum.splits)
  from d(2) have g: "get_prop message ''id'' = Inr ident" by (simp add: destructure_Inr)
  from assms d have "\<exists>member. reply = JObj [(''jsonrpc'', JStr ''2.0''), (''id'', ident), member]"
    unfolding handleJsonRpcRequest_def
    by (auto split: sum.splits prod.splits if_splits)
  with g show ?thesis by blast
qed

lemma handler_throw_unchanged:
  assumes "handleJsonRpcRequest env s message = (Inl e, s')"
  shows "s' = s"
  using assms unfolding handleJsonRpcRequest_def
  by (auto split: sum.splits prod.splits if_splits)

lemma unknown_message:
  "template [Inr ''Unknown tool: '', tpl (JStr n)] = Inr (''Unknown tool: '' @ n)"
  by (simp add: tpl_def)

lemma rpc_call_switch:
  "handleJsonRpcRequest env s (rpc_call ident name args) =
     (case tool_switch env s name args of
        (Inr content, s') \<Rightarrow> (Inr (rpc_result ident content), s')
      | (Inl e, s') \<Rightarrow> (Inr (rpc_error ident (- 32000) e), s'))"
  by (simp add: handleJsonRpcRequest_def rpc_call_def destructure_def rpc_result_def rpc_error_def
      split: prod.split sum.split)

lemma direct_call_switch:
  "post_mcp_tools_call env s (direct_call name args) =
     (case tool_switch env s name args of
        (Inr content, s') \<Rightarrow> (\<lparr>status = 200, json = JObj [(''content'', text_content content)]\<rparr>, s')
      | (Inl e, s') \<Rightarrow> (error_block e, s'))"
  by (simp add: post_mcp_tools_call_def direct_call_def destructure_def split: prod.split sum.split)

lemma makeRequest_miss:
  assumes "cache_lookup s (cacheKey (baseURL @ endpoint) options) = None"
    and "fetch_init env options = Inr init"
    and "backend env (length (fetches s)) (baseURL @ endpoint) init = (res, ms)"
  shows "makeRequest env s endpoint options =
     (let s1 = s\<lparr>fetches := fetches s @ [(baseURL @ endpoint, init)], now := now s + int ms\<rparr>
      in case res of
           FetchRejected e \<Rightarrow> (Inl e, s1)
         | Response st txt body \<Rightarrow>
             if \<not> response_ok st
             then (Inl (''GitHub API error: '' @ show_nat st @ '' '' @ txt), s1)
             else (case body of
                     Inl e \<Rightarrow> (Inl e, s1)
                   | Inr d \<Rightarrow>
                       (Inr d, s1\<lparr>cache := (cache s1)(cacheKey (baseURL @ endpoint) options \<mapsto>
                          \<lparr>data = d, timestamp = now s1\<rparr>)\<rparr>)))"
  using assms by (simp add: makeRequest_def Let_def)


lemma switch_request_ok:
  assumes "tool_request name args = Inr (endpoint, options)"
    and "makeRequest env s endpoint options = (Inr d, s1)"
  shows "tool_switch env s name args = (tool_format env name args d, s1)"
  using assms by (simp add: tool_switch_factor)

lemma rpc_call_thrown:
  "tool_switch env s name args = (Inl e, s1) \<Longrightarrow>
   handleJsonRpcRequest env s (rpc_call ident name args) = (Inr (rpc_error ident (- 32000) e), s1)"
  by (simp add: rpc_call_switch)

lemma direct_call_thrown:
  "tool_switch env s name args = (Inl e, s1) \<Longrightarrow>
   post_mcp_tools_call env s (direct_call name args) = (error_block e, s1)"
  by (simp add: direct_call_switch)


lemma rpc_call_outcome:
  "tool_switch env s name args = (r, s1) \<Longrightarrow>
   handleJsonRpcRequest env s (rpc_call ident name args) =
     (Inr (case r of Inl e \<Rightarrow> rpc_error ident (- 32000) e | Inr c \<Rightarrow> rpc_result ident c), s1)"
  by (simp add: rpc_call_switch split: sum.split)

lemma direct_call_outcome:
  "tool_switch env s name args = (r, s1) \<Longrightarrow>
   post_mcp_tools_call env s (direct_call name args) =
     (case r of Inl e \<Rightarrow> error_block e
      | Inr c \<Rightarrow> \<lparr>status = 200, json = JObj [(''content'', text_content c)]\<rparr>, s1)"
  by (simp add: direct_call_switch split: sum.split)

lemma switch_again:
  assumes req: "tool_request name args = Inr (endpoint, options)"
    and first: "makeRequest env s endpoint options = (Inr payload, s1)"
    and entry: "cache s1 (cacheKey (baseURL @ endpoint) options) = Some e"
    and window: "t2 - timestamp e < CACHE_DURATION"
  shows "tool_switch env s name args = (tool_format env name args payload, s1)"
    and "tool_switch env (s1\<lparr>now := t2\<rparr>) name args =
           (tool_format env name args payload, s1\<lparr>now := t2\<rparr>)"
proof -
  show "tool_switch env s name args = (tool_format env name args payload, s1)"
    by (rule switch_request_ok [OF req first])
  from makeRequest_again [OF first entry window]
  show "tool_switch env (s1\<lparr>now := t2\<rparr>) name args =
           (tool_format env name args payload, s1\<lparr>now := t2\<rparr>)"
    by (rule switch_request_ok [OF req])
qed


lemma fetch_init_default: "fetch_init env (JObj []) = Inr (default_init env)"
  by (simp add: fetch_init_def default_init_def spread_def ebind_def)

lemma fetch_init_post:
  "fetch_init env (JObj [(''method'', m), (''headers'', h), (''body'', b)]) =
     Inr (JObj [(''headers'', h), (''method'', m), (''body'', b)])"
  by (simp add: fetch_init_def spread_def ebind_def)

lemma repo_request:
  "tool_request (JStr ''github_get_repository'') repo_args = Inr (''/repos/acme/widgets'', JObj [])"
  by (simp add: tool_request_def repo_args_def ebind_def tpl_def)

lemma path_request:
  "tool_request (JStr ''github_get_file_content'') path_args =
     Inr (''/repos/acme/widgets/contents/src?ref=main'', JObj [])"
  by (simp add: tool_request_def path_args_def ebind_def tpl_def default_param_def)

lemma started_miss: "cache_lookup started key = None"
  by (simp add: cache_lookup_def started_def)

lemma create_issue_options:
  assumes "tool_request (JStr ''github_create_issue'') args = Inr (endpoint, options)"
  shows "\<exists>b. options = JObj [(''method'', JStr ''POST''),
            (''headers'', JObj [(''Content-Type'', JStr ''application/json'')]), (''body'', b)]"
  using assms unfolding tool_request_def ebind_def
  by (auto split: sum.splits)

lemma issue_request:
  "tool_request (JStr ''github_create_issue'') issue_args =
     Inr (''/repos/acme/widgets/issues'', issue_options)"
  by (simp add: tool_request_def issue_args_def issue_options_def ebind_def tpl_def)

lemma issue_fetch_init: "fetch_init env issue_options = Inr issue_init"
  unfolding issue_options_def issue_init_def by (rule fetch_init_post)

subsection \<open>Requests of registered tools\<close>











lemma empty_cache_miss: "cache s = Map.empty \<Longrightarrow> cache_lookup s key = None"
  by (simp add: cache_lookup_def)



section \<open>Quoted strings and cache keys\<close>

text \<open>
  Inside its quotes an escaped string has no double quote without a backslash before it,
  so the text that \<open>JSON.stringify\<close> puts before the body of a POST cannot start
  inside one: a cache key splits into URL and options in one way only.
\<close>

lemma guarded_from_append:
  "guarded_from p (a @ b) \<longleftrightarrow> guarded_from p a \<and> guarded_from (last (p # a)) b"
  by (induction a arbitrary: p) auto

lemma guarded_from_no_quote: "dquote \<notin> set s \<Longrightarrow> guarded_from p s"
  by (induction s arbitrary: p) auto

lemma guarded_from_nth:
  "guarded_from p s \<Longrightarrow> i < length s \<Longrightarrow> s ! i = dquote \<Longrightarrow>
   (if i = 0 then p = bslash else s ! (i - 1) = bslash)"
proof (induction s arbitrary: p i)
  case Nil
  then show ?case by simp
next
  case (Cons c cs)
  show ?case
  proof (cases i)
    case 0
    with Cons.prems show ?thesis by simp
  next
    case (Suc j)
    with Cons.prems have "guarded_from c cs" "j < length cs" "cs ! j = dquote" by simp_all
    from Cons.IH [OF this] Suc show ?thesis by (cases j) simp_all
  qed
qed

lemma hex_char_set: "d < 16 \<Longrightarrow> hex_char d \<in> set ''0123456789abcdef''"
  unfolding hex_char_def by (rule nth_mem) simp

lemma hex_char_not_quote: "d < 16 \<Longrightarrow> hex_char d \<noteq> dquote"
  using hex_char_set [of d] by (auto simp: dquote_def)

lemma esc_char_quote: "esc_char c = [bslash, dquote] \<or> dquote \<notin> set (esc_char c)"
proof (cases "(of_char c :: nat) < 32")
  case True
  then have "of_char c div 16 < (16::nat)" "of_char c mod 16 < (16::nat)" by simp_all
  then have "hex_char (of_char c div 16) \<noteq> dquote" "hex_char (of_char c mod 16) \<noteq> dquote"
    by (simp_all add: hex_char_not_quote)
  then show ?thesis by (simp add: esc_char_def dquote_def bslash_def)
next
  case False
  then show ?thesis by (simp add: esc_char_def dquote_def bslash_def)
qed

lemma bslash_neq_dquote: "bslash \<noteq> dquote"
  by (simp add: bslash_def dquote_def)

lemma esc_char_guarded: "guarded_from p (esc_char c)"
  using esc_char_quote [of c] by (auto simp: guarded_from_no_quote bslash_neq_dquote)

lemma escape_guarded: "guarded_from p (escape s)"
proof (induction s arbitrary: p)
  case Nil
  show ?case by (simp add: escape_def)
next
  case (Cons c cs)
  have "escape (c # cs) = esc_char c @ escape cs" by (simp add: escape_def)
  with Cons esc_char_guarded show ?case by (simp add: guarded_from_append)
qed


lemma quote_in_guarded:
  assumes g: "guarded_from p e" and p: "p \<noteq> bslash" and c: "c \<noteq> bslash"
    and eq: "w @ q @ [c, dquote] @ e1 = q @ [c, dquote] @ e"
  shows "w = []"
proof (rule ccontr)
  assume w: "w \<noteq> []"
  define n where "n = length w"
  define m where "m = length q"
  from w have n: "0 < n" by (simp add: n_def)
  from eq have "length (w @ q @ [c, dquote] @ e1) = length (q @ [c, dquote] @ e)" by simp
  then have len: "length e = n + length e1" by (simp add: n_def)
  have l1: "(w @ q @ [c, dquote] @ e1) ! (n + m + 1) = dquote"
    by (simp add: nth_append n_def m_def)
  have l0: "(w @ q @ [c, dquote] @ e1) ! (n + m) = c"
    by (simp add: nth_append n_def m_def)
  from n have r1: "(q @ [c, dquote] @ e) ! (n + m + 1) = e ! (n - 1)"
    by (simp add: nth_append m_def nth_Cons')
  from l1 r1 eq have q: "e ! (n - 1) = dquote" by simp
  from n len have b: "n - 1 < length e" by simp
  note k = guarded_from_nth [OF g b q]
  show False
  proof (cases "n = 1")
    case True
    with k p show False by simp
  next
    case False
    with n have n2: "2 \<le> n" by simp
    with k have "e ! (n - 2) = bslash" by (simp add: numeral_2_eq_2)
    moreover from n2 have "(q @ [c, dquote] @ e) ! (n + m) = e ! (n - 2)"
      by (simp add: nth_append m_def nth_Cons' numeral_2_eq_2)
    ultimately show False using l0 eq c by simp
  qed
qed

lemma hex_char_inj:
  assumes "a < 16" "b < 16" "hex_char a = hex_char b"
  shows "a = b"
proof -
  have d: "distinct ''0123456789abcdef''" by simp
  from assms show ?thesis
    unfolding hex_char_def using nth_eq_iff_index_eq [OF d, of a b] by simp
qed

lemma unicode_escape_inj:
  assumes "(of_char c1 :: nat) < 32" "(of_char c2 :: nat) < 32"
    and "hex_char (of_char c1 div 16) = hex_char (of_char c2 div 16)"
    and "hex_char (of_char c1 mod 16) = hex_char (of_char c2 mod 16)"
  shows "c1 = c2"
proof -
  from assms(1,2) have "of_char c1 div 16 < (16::nat)" "of_char c2 div 16 < (16::nat)"
    "of_char c1 mod 16 < (16::nat)" "of_char c2 mod 16 < (16::nat)" by simp_all
  with assms(3,4) have "(of_char c1 :: nat) div 16 = of_char c2 div 16"
    "(of_char c1 :: nat) mod 16 = of_char c2 mod 16"
    by (auto intro: hex_char_inj)
  then have "(of_char c1 :: nat) = of_char c2"
    by (metis div_mult_mod_eq)
  then show ?thesis by simp
qed

lemma esc_char_prefix:
  assumes "esc_char c1 @ r1 = esc_char c2 @ r2"
  shows "c1 = c2 \<and> r1 = r2"
  using assms
  by (auto simp: esc_char_def dquote_def bslash_def split: if_splits dest: unicode_escape_inj)

lemma esc_char_nonempty: "esc_char c \<noteq> []"
  by (simp add: esc_char_def)

lemma escape_Cons: "escape (c # cs) = esc_char c @ escape cs"
  by (simp add: escape_def)

lemma escape_inj: "escape s1 = escape s2 \<Longrightarrow> s1 = s2"
proof (induction s1 arbitrary: s2)
  case Nil
  then show ?case by (cases s2) (simp_all add: escape_def esc_char_nonempty)
next
  case (Cons c cs)
  show ?case
  proof (cases s2)
    case Nil
    with Cons.prems show ?thesis by (simp add: escape_def esc_char_nonempty)
  next
    case (Cons d ds)
    with Cons.prems have "esc_char c @ escape cs = esc_char d @ escape ds"
      by (simp add: escape_Cons)
    then have "c = d \<and> escape cs = escape ds" by (rule esc_char_prefix)
    with Cons.IH Cons show ?thesis by simp
  qed
qed

lemma key_overlap:
  assumes eq: "e1 @ q @ [c, dquote] @ x1 = e2 @ q @ [c, dquote] @ x2"
    and c: "c \<noteq> bslash" and p: "p \<noteq> bslash"
    and g1: "guarded_from p x1" and g2: "guarded_from p x2"
  shows "e1 = e2 \<and> x1 = x2"
proof -
  from append_eq_append_conv2 [THEN iffD1, OF eq] obtain w where
    w: "(e1 = e2 @ w \<and> w @ q @ [c, dquote] @ x1 = q @ [c, dquote] @ x2) \<or>
        (e1 @ w = e2 \<and> q @ [c, dquote] @ x1 = w @ q @ [c, dquote] @ x2)" ..
  then have "w = []"
  proof
    assume "e1 = e2 @ w \<and> w @ q @ [c, dquote] @ x1 = q @ [c, dquote] @ x2"
    then have "w @ q @ [c, dquote] @ x1 = q @ [c, dquote] @ x2" ..
    then show ?thesis by (rule quote_in_guarded [OF g2 p c])
  next
    assume "e1 @ w = e2 \<and> q @ [c, dquote] @ x1 = w @ q @ [c, dquote] @ x2"
    then have "q @ [c, dquote] @ x1 = w @ q @ [c, dquote] @ x2" ..
    then have "w @ q @ [c, dquote] @ x2 = q @ [c, dquote] @ x1" by (rule sym)
    then show ?thesis by (rule quote_in_guarded [OF g1 p c])
  qed
  with w show ?thesis by simp
qed

lemma stringify_default: "stringify_text (JObj []) = ''{}''"
  by (simp add: stringify_text_def)

lemma stringify_post:
  "stringify_text (JObj [(''method'', JStr ''POST''),
      (''headers'', JObj [(''Content-Type'', JStr ''application/json'')]), (''body'', JStr b)]) =
   post_prefix @ [CHR '':'', dquote] @ escape b @ [dquote, CHR ''}'']"
  by (simp add: stringify_text_def post_prefix_def json_quote_def)

lemma stringify_value_object: "\<exists>b. stringify_value (JObj kvs) = JStr b"
  by (simp add: stringify_value_def)

lemma request_options_shape:
  assumes "tool_request name args = Inr (endpoint, options)"
  shows "options = JObj [] \<or>
         (\<exists>b. options = JObj [(''method'', JStr ''POST''),
            (''headers'', JObj [(''Content-Type'', JStr ''application/json'')]), (''body'', JStr b)])"
proof (cases "name \<in> JStr ` set tool_names")
  case False
  with assms show ?thesis by (simp add: tool_request_unknown split: sum.splits)
next
  case True
  from True [unfolded known_tool_iff] show ?thesis
  proof (elim disjE)
    assume "name = JStr ''github_get_repository''"
    with assms show ?thesis by (auto simp: tool_request_def ebind_def split: sum.splits)
  next
    assume "name = JStr ''github_list_repositories''"
    with assms show ?thesis by (auto simp: tool_request_def ebind_def split: sum.splits)
  next
    assume "name = JStr ''github_list_issues''"
    with assms show ?thesis by (auto simp: tool_request_def ebind_def split: sum.splits)
  next
    assume "name = JStr ''github_create_issue''"
    with assms show ?thesis
      by (auto simp: tool_request_def ebind_def stringify_value_def split: sum.splits)
  next
    assume "name = JStr ''github_get_file_content''"
    with assms show ?thesis by (auto simp: tool_request_def ebind_def split: sum.splits)
  qed
qed

lemma cacheKey_default_default:
  "cacheKey (baseURL @ e1) (JObj []) = cacheKey (baseURL @ e2) (JObj []) \<Longrightarrow> e1 = e2"
  by (simp add: cacheKey_def stringify_default)

lemma cacheKey_default_post:
  "cacheKey (baseURL @ e1) (JObj []) \<noteq>
   cacheKey (baseURL @ e2) (JObj [(''method'', JStr ''POST''),
      (''headers'', JObj [(''Content-Type'', JStr ''application/json'')]), (''body'', JStr b)])"
proof
  assume "cacheKey (baseURL @ e1) (JObj []) =
   cacheKey (baseURL @ e2) (JObj [(''method'', JStr ''POST''),
      (''headers'', JObj [(''Content-Type'', JStr ''application/json'')]), (''body'', JStr b)])"
  then have "(e1 @ ''_'') @ [CHR ''{'', CHR ''}''] =
      (e2 @ ''_'' @ post_prefix @ [CHR '':'', dquote] @ escape b) @ [dquote, CHR ''}'']"
    unfolding cacheKey_def stringify_default stringify_post by simp
  then have "rev ((e1 @ ''_'') @ [CHR ''{'', CHR ''}'']) =
      rev ((e2 @ ''_'' @ post_prefix @ [CHR '':'', dquote] @ escape b) @ [dquote, CHR ''}''])"
    by (rule arg_cong)
  then show False by (simp add: dquote_def)
qed

lemma cacheKey_post_post:
  assumes "cacheKey (baseURL @ e1) (JObj [(''method'', JStr ''POST''),
      (''headers'', JObj [(''Content-Type'', JStr ''application/json'')]), (''body'', JStr b1)]) =
   cacheKey (baseURL @ e2) (JObj [(''method'', JStr ''POST''),
      (''headers'', JObj [(''Content-Type'', JStr ''application/json'')]), (''body'', JStr b2)])"
  shows "e1 = e2 \<and> b1 = b2"
proof -
  from assms have "(e1 @ (''_'' @ post_prefix) @ [CHR '':'', dquote] @ escape b1) @ [dquote, CHR ''}''] =
      (e2 @ (''_'' @ post_prefix) @ [CHR '':'', dquote] @ escape b2) @ [dquote, CHR ''}'']"
    unfolding cacheKey_def stringify_post by simp
  then have "e1 @ (''_'' @ post_prefix) @ [CHR '':'', dquote] @ escape b1 =
      e2 @ (''_'' @ post_prefix) @ [CHR '':'', dquote] @ escape b2"
    by (simp only: append_same_eq)
  then have "e1 = e2 \<and> escape b1 = escape b2"
  proof (rule key_overlap)
    show "CHR '':'' \<noteq> bslash" by (simp add: bslash_def)
    show "CHR '':'' \<noteq> bslash" by (simp add: bslash_def)
    show "guarded_from CHR '':'' (escape b1)" by (rule escape_guarded)
    show "guarded_from CHR '':'' (escape b2)" by (rule escape_guarded)
  qed
  then show ?thesis by (simp add: escape_inj)
qed

section \<open>Sessions under events\<close>

lemma fire_target:
  "fire w ts c = w c @ replicate (length (filter (\<lambda>(t, tm). target tm = c) ts)) ping"
proof (induction ts arbitrary: w)
  case Nil
  show ?case by (simp add: fire_def)
next
  case (Cons x xs)
  obtain t tm where x: "x = (t, tm)" by (cases x)
  have "fire w (x # xs) c = fire (w(target tm := w (target tm) @ [ping])) xs c"
    by (simp add: fire_def x)
  also have "\<dots> = (w(target tm := w (target tm) @ [ping])) c @
      replicate (length (filter (\<lambda>(t, tm). target tm = c) xs)) ping"
    by (rule Cons.IH)
  also have "\<dots> = w c @ replicate (length (filter (\<lambda>(t, tm). target tm = c) (x # xs))) ping"
    by (simp add: x replicate_app_Cons_same)
  finally show ?case .
qed

lemma sse_wf_open: "sse_wf env st \<Longrightarrow> sse_wf env (sse_open env st c)"
proof -
  assume wf: "sse_wf env st"
  have k: "\<And>sid. (\<exists>k < uuid_count st. sid = uuidv4 env k) \<Longrightarrow>
      (\<exists>k < Suc (uuid_count st). sid = uuidv4 env k)"
    using less_SucI by blast
  have n: "\<exists>k < Suc (uuid_count st). uuidv4 env (uuid_count st) = uuidv4 env k"
    by (rule exI [of _ "uuid_count st"]) simp
  from wf have t: "\<forall>(t, tm) \<in> set (timers st). t < Suc (timer_count st)"
    unfolding sse_wf_def by (auto intro: less_SucI)
  from wf have l: "\<forall>c' t sid. listeners st c' = Some (t, sid) \<longrightarrow>
      t < Suc (timer_count st) \<and> (\<exists>k < Suc (uuid_count st). sid = uuidv4 env k)"
    unfolding sse_wf_def using k less_SucI by blast
  from wf have s: "\<forall>sid \<in> dom (sessions st). \<exists>k < Suc (uuid_count st). sid = uuidv4 env k"
    unfolding sse_wf_def using k by blast
  show ?thesis
    unfolding sse_wf_def sse_open_def Let_def using t l s n by auto
qed

lemma sse_wf_close: "sse_wf env st \<Longrightarrow> sse_wf env (sse_close st c)"
  unfolding sse_wf_def sse_close_def
  by (auto split: option.splits if_splits)

lemma sse_wf_step_ms: "sse_wf env st \<Longrightarrow> sse_wf env (step_ms st)"
  unfolding sse_wf_def step_ms_def Let_def
  by (auto split: if_splits)

lemma sse_wf_elapse: "sse_wf env st \<Longrightarrow> sse_wf env (elapse n st)"
  by (induction n) (simp_all add: sse_wf_step_ms)

lemma sse_wf_step: "sse_wf env st \<Longrightarrow> sse_wf env (sse_step env st e)"
  by (cases e) (simp_all add: sse_wf_open sse_wf_close sse_wf_elapse)

lemma fresh_session_id:
  assumes "inj (uuidv4 env)" "sse_wf env st"
  shows "uuidv4 env (uuid_count st) \<notin> dom (sessions st)"
proof
  assume "uuidv4 env (uuid_count st) \<in> dom (sessions st)"
  with assms(2) obtain k where "k < uuid_count st" "uuidv4 env (uuid_count st) = uuidv4 env k"
    unfolding sse_wf_def by blast
  with assms(1) show False by (auto dest: injD)
qed

lemma live_session_open:
  assumes i: "inj (uuidv4 env)" and wf: "sse_wf env st" and n: "new_connection st c"
  shows "live_session c (timer_count st) (uuidv4 env (uuid_count st))
           (written st c @ [handshake env]) 0 (sse_open env st c)"
proof -
  have f: "filter (\<lambda>(t, tm). t = timer_count st \<or> target tm = c) (timers st) = []"
    using wf n unfolding sse_wf_def new_connection_def by (auto simp: filter_empty_conv)
  have l: "\<forall>c' t s. c' \<noteq> c \<longrightarrow> listeners st c' = Some (t, s) \<longrightarrow>
      t \<noteq> timer_count st \<and> s \<noteq> uuidv4 env (uuid_count st)"
  proof (intro allI impI)
    fix c' t s assume "c' \<noteq> c" and a: "listeners st c' = Some (t, s)"
    with wf obtain k where "t < timer_count st" "k < uuid_count st" "s = uuidv4 env k"
      unfolding sse_wf_def by blast
    with i show "t \<noteq> timer_count st \<and> s \<noteq> uuidv4 env (uuid_count st)"
      by (auto dest: injD)
  qed
  show ?thesis
    unfolding live_session_def sse_open_def Let_def using f l by simp
qed

lemma live_session_step_ms:
  assumes l: "live_session c t0 sid base m st"
  shows "live_session c t0 sid base (Suc m) (step_ms st)"
proof -
  define tm0 where "tm0 = \<lparr>target = c, period = 30000, due = clock st + 30000 - int (m mod 30000)\<rparr>"
  define g where "g = (\<lambda>(t, tm). if due tm = clock st + 1 then (t, tm\<lparr>due := clock st + 1 + period tm\<rparr>)
     else (t :: nat, tm :: timer))"
  from l have f: "filter (\<lambda>(t, tm). t = t0 \<or> target tm = c) (timers st) = [(t0, tm0)]"
    and w: "written st c = base @ replicate (m div 30000) ping"
    and rest: "listeners st c = Some (t0, sid)"
      "sessions st sid = Some \<lparr>session_res = c, session_id = sid\<rparr>"
      "\<forall>c' t s. c' \<noteq> c \<longrightarrow> listeners st c' = Some (t, s) \<longrightarrow> t \<noteq> t0 \<and> s \<noteq> sid"
    unfolding live_session_def tm0_def by simp_all
  have m: "m mod 30000 < 30000" by simp
  have fires: "due tm0 = clock st + 1 \<longleftrightarrow> Suc m mod 30000 = 0"
    unfolding tm0_def using m by (auto simp: mod_Suc)
  have "filter (\<lambda>(t, tm). target tm = c) (filter (\<lambda>(t, tm). due tm = clock st + 1) (timers st)) =
        filter (\<lambda>(t, tm). due tm = clock st + 1)
          (filter (\<lambda>(t, tm). target tm = c) (filter (\<lambda>(t, tm). t = t0 \<or> target tm = c) (timers st)))"
    by (induction "timers st") (auto simp: filter_filter intro: filter_cong)
  also have "\<dots> = (if Suc m mod 30000 = 0 then [(t0, tm0)] else [])"
    unfolding f using fires by (simp add: tm0_def)
  finally have cnt: "length (filter (\<lambda>(t, tm). target tm = c)
      (filter (\<lambda>(t, tm). due tm = clock st + 1) (timers st))) = (if Suc m mod 30000 = 0 then 1 else 0)"
    by simp
  have "written (step_ms st) c =
      fire (written st) (filter (\<lambda>(t, tm). due tm = clock st + 1) (timers st)) c"
    by (simp add: step_ms_def Let_def)
  also have "\<dots> = written st c @ replicate (length (filter (\<lambda>(t, tm). target tm = c)
      (filter (\<lambda>(t, tm). due tm = clock st + 1) (timers st)))) ping"
    by (rule fire_target)
  also have "\<dots> = base @ replicate (Suc m div 30000) ping"
    unfolding cnt w by (simp add: div_Suc replicate_append_same)
  finally have wr: "written (step_ms st) c = base @ replicate (Suc m div 30000) ping" .
  have "filter (\<lambda>(t, tm). t = t0 \<or> target tm = c) (map g (timers st)) =
        map g (filter (\<lambda>(t, tm). t = t0 \<or> target tm = c) (timers st))"
    by (induction "timers st") (auto simp: filter_map g_def o_def split: prod.splits intro!: filter_cong)
  also have "\<dots> = [g (t0, tm0)]" by (simp add: f)
  also have "g (t0, tm0) = (t0, \<lparr>target = c, period = 30000,
       due = clock st + 1 + 30000 - int (Suc m mod 30000)\<rparr>)"
    unfolding g_def using fires m by (auto simp: tm0_def mod_Suc)
  finally have tf: "filter (\<lambda>(t, tm). t = t0 \<or> target tm = c) (timers (step_ms st)) =
     [(t0, \<lparr>target = c, period = 30000, due = clock (step_ms st) + 30000 - int (Suc m mod 30000)\<rparr>)]"
    by (simp add: step_ms_def Let_def g_def)
  from rest have "listeners (step_ms st) c = Some (t0, sid)"
      "sessions (step_ms st) sid = Some \<lparr>session_res = c, session_id = sid\<rparr>"
      "\<forall>c' t s. c' \<noteq> c \<longrightarrow> listeners (step_ms st) c' = Some (t, s) \<longrightarrow> t \<noteq> t0 \<and> s \<noteq> sid"
    by (simp_all add: step_ms_def Let_def)
  with tf wr show ?thesis unfolding live_session_def by simp
qed

lemma live_session_elapse:
  "live_session c t0 sid base m st \<Longrightarrow> live_session c t0 sid base (m + n) (elapse n st)"
  by (induction n) (simp_all add: live_session_step_ms)

lemma live_session_open_other:
  assumes i: "inj (uuidv4 env)" and wf: "sse_wf env st"
    and l: "live_session c t0 sid base m st" and d: "c' \<noteq> c"
  shows "live_session c t0 sid base m (sse_open env st c')"
proof -
  from l have ls: "listeners st c = Some (t0, sid)" by (simp add: live_session_def)
  with wf obtain k where k: "t0 < timer_count st" "k < uuid_count st" "sid = uuidv4 env k"
    unfolding sse_wf_def by blast
  with i have ne: "timer_count st \<noteq> t0" "uuidv4 env (uuid_count st) \<noteq> sid"
    by (auto dest: injD)
  with l d show ?thesis
    unfolding live_session_def sse_open_def Let_def by auto
qed

lemma live_session_close_other:
  assumes l: "live_session c t0 sid base m st" and d: "c' \<noteq> c"
  shows "live_session c t0 sid base m (sse_close st c')"
proof (cases "listeners st c'")
  case None
  with l show ?thesis by (simp add: sse_close_def)
next
  case (Some a)
  obtain t s where a: "a = (t, s)" by (cases a)
  with l d Some have ne: "t \<noteq> t0" "s \<noteq> sid" by (auto simp: live_session_def)
  have "filter (\<lambda>(t', tm). t' = t0 \<or> target tm = c) (filter (\<lambda>(t', tm). t' \<noteq> t) (timers st)) =
        filter (\<lambda>(t', tm). t' \<noteq> t) (filter (\<lambda>(t', tm). t' = t0 \<or> target tm = c) (timers st))"
    by (induction "timers st") (auto simp: filter_filter intro: filter_cong)
  also have "\<dots> = [(t0, \<lparr>target = c, period = 30000, due = clock st + 30000 - int (m mod 30000)\<rparr>)]"
    using l ne by (simp add: live_session_def)
  finally show ?thesis
    using l ne Some a unfolding live_session_def sse_close_def by simp
qed

lemma live_session_run:
  assumes i: "inj (uuidv4 env)"
  shows "sse_wf env st \<Longrightarrow> live_session c t0 sid base m st \<Longrightarrow> \<not> list_ex (concerns c) evs \<Longrightarrow>
         live_session c t0 sid base (m + duration evs) (sse_run env st evs)"
proof (induction evs arbitrary: st m)
  case Nil
  then show ?case by (simp add: sse_run_def)
next
  case (Cons e evs)
  from Cons.prems have wf': "sse_wf env (sse_step env st e)" by (simp add: sse_wf_step)
  from Cons.prems have rest: "\<not> list_ex (concerns c) evs" by simp
  have run: "sse_run env st (e # evs) = sse_run env (sse_step env st e) evs"
    by (simp add: sse_run_def)
  show ?case
  proof (cases e)
    case (Connect c')
    with Cons.prems have "c' \<noteq> c" by simp
    from live_session_open_other [OF i Cons.prems(1) Cons.prems(2) this]
    have "live_session c t0 sid base m (sse_step env st e)" by (simp add: Connect)
    from Cons.IH [OF wf' this rest] show ?thesis unfolding run by (simp add: Connect)
  next
    case (Disconnect c')
    with Cons.prems have "c' \<noteq> c" by simp
    from live_session_close_other [OF Cons.prems(2) this]
    have "live_session c t0 sid base m (sse_step env st e)" by (simp add: Disconnect)
    from Cons.IH [OF wf' this rest] show ?thesis unfolding run by (simp add: Disconnect)
  next
    case (Elapse n)
    from live_session_elapse [OF Cons.prems(2), of n]
    have "live_session c t0 sid base (m + n) (sse_step env st e)" by (simp add: Elapse)
    from Cons.IH [OF wf' this rest] show ?thesis unfolding run by (simp add: Elapse add.assoc)
  qed
qed

lemma live_session_close:
  assumes l: "live_session c t0 sid base m st"
  shows "sessions (sse_close st c) sid = None"
    and "\<forall>(t, tm) \<in> set (timers (sse_close st c)). t \<noteq> t0 \<and> target tm \<noteq> c"
    and "written (sse_close st c) c = written st c"
proof -
  from l have ls: "listeners st c = Some (t0, sid)" by (simp add: live_session_def)
  then show "sessions (sse_close st c) sid = None" "written (sse_close st c) c = written st c"
    by (simp_all add: sse_close_def)
  show "\<forall>(t, tm) \<in> set (timers (sse_close st c)). t \<noteq> t0 \<and> target tm \<noteq> c"
  proof (clarify, rule conjI)
    fix t tm assume a: "(t, tm) \<in> set (timers (sse_close st c))"
    with ls have b: "(t, tm) \<in> set (timers st)" "t \<noteq> t0" by (simp_all add: sse_close_def)
    then show "t \<noteq> t0" by simp
    show "target tm \<noteq> c"
    proof
      assume "target tm = c"
      with b have "(t, tm) \<in> set (filter (\<lambda>(t, tm). t = t0 \<or> target tm = c) (timers st))" by simp
      with l b show False by (simp add: live_session_def)
    qed
  qed
qed

lemma quiet_step_ms: "quiet st c \<Longrightarrow> quiet (step_ms st) c \<and> written (step_ms st) c = written st c"
proof -
  assume q: "quiet st c"
  then have "filter (\<lambda>(t, tm). target tm = c) (filter (\<lambda>(t, tm). due tm = clock st + 1) (timers st)) = []"
    by (auto simp: quiet_def filter_empty_conv)
  then have "written (step_ms st) c = written st c"
    by (simp add: step_ms_def Let_def fire_target del: filter_filter)
  moreover from q have "quiet (step_ms st) c"
    by (auto simp: quiet_def step_ms_def Let_def split: if_splits)
  ultimately show ?thesis by simp
qed

lemma quiet_elapse: "quiet st c \<Longrightarrow> quiet (elapse n st) c \<and> written (elapse n st) c = written st c"
  by (induction n) (simp_all add: quiet_step_ms)

lemma quiet_open: "quiet st c \<Longrightarrow> c' \<noteq> c \<Longrightarrow>
  quiet (sse_open env st c') c \<and> written (sse_open env st c') c = written st c"
  by (auto simp: quiet_def sse_open_def Let_def)

lemma quiet_close: "quiet st c \<Longrightarrow>
  quiet (sse_close st c') c \<and> written (sse_close st c') c = written st c"
  by (auto simp: quiet_def sse_close_def split: option.splits)

lemma quiet_run:
  "quiet st c \<Longrightarrow> Connect c \<notin> set evs \<Longrightarrow>
   quiet (sse_run env st evs) c \<and> written (sse_run env st evs) c = written st c"
proof (induction evs arbitrary: st)
  case Nil
  then show ?case by (simp add: sse_run_def)
next
  case (Cons e evs)
  have run: "sse_run env st (e # evs) = sse_run env (sse_step env st e) evs"
    by (simp add: sse_run_def)
  from Cons.prems have "quiet (sse_step env st e) c \<and> written (sse_step env st e) c = written st c"
    by (cases e) (auto simp: quiet_open quiet_close quiet_elapse)
  moreover from Cons.prems have "Connect c \<notin> set evs" by simp
  ultimately show ?case unfolding run using Cons.IH [of "sse_step env st e"] by simp
qed

lemma demo_uuid_inj: "inj (uuidv4 demo_env)"
proof (rule injI)
  fix x y assume "uuidv4 demo_env x = uuidv4 demo_env y"
  then have "length (replicate (Suc x) (CHR ''u'')) = length (replicate (Suc y) (CHR ''u''))"
    by (simp add: demo_env_def)
  then show "x = y" by simp
qed




lemma format_issues_empty:
  "format_issues (JObj [(''owner'', JStr ''acme''), (''repo'', JStr ''widgets''),
       (''state'', JStr ''closed'')]) (JArr []) =
     Inr (''Issues in acme/widgets (closed):'' @ [newline, newline] @ ''No issues found'')"
  by (simp add: format_issues_def array_map_def tpl_prop_def ebind_def)

section \<open>The claims\<close>

subsection \<open>C1: arguments are not checked against the schema\<close>




subsection \<open>C2: different backend requests have different cache keys\<close>

text \<open>
  C2. The backend request of a call is the endpoint (path and query) with the options
  (method, headers and body). Two calls whose backend requests differ have different
  cache keys, so they never read or write the same cache entry.
\<close>

theorem cache_key_injective:
  assumes r1: "tool_request n1 a1 = Inr (e1, o1)"
    and r2: "tool_request n2 a2 = Inr (e2, o2)"
    and d: "(e1, o1) \<noteq> (e2, o2)"
  shows "cacheKey (baseURL @ e1) o1 \<noteq> cacheKey (baseURL @ e2) o2"
proof
  assume k: "cacheKey (baseURL @ e1) o1 = cacheKey (baseURL @ e2) o2"
  from request_options_shape [OF r1] request_options_shape [OF r2]
  have "e1 = e2 \<and> o1 = o2"
  proof (elim disjE exE)
    assume "o1 = JObj []" "o2 = JObj []"
    with k show ?thesis by (simp add: cacheKey_default_default)
  next
    fix b assume "o1 = JObj []" "o2 = JObj [(''method'', JStr ''POST''),
            (''headers'', JObj [(''Content-Type'', JStr ''application/json'')]), (''body'', JStr b)]"
    with k cacheKey_default_post [of e1 e2 b] show ?thesis by simp
  next
    fix b assume "o2 = JObj []" "o1 = JObj [(''method'', JStr ''POST''),
            (''headers'', JObj [(''Content-Type'', JStr ''application/json'')]), (''body'', JStr b)]"
    with k cacheKey_default_post [of e2 e1 b] show ?thesis by simp
  next
    fix b1 b2 assume o: "o1 = JObj [(''method'', JStr ''POST''),
            (''headers'', JObj [(''Content-Type'', JStr ''application/json'')]), (''body'', JStr b1)]"
       "o2 = JObj [(''method'', JStr ''POST''),
            (''headers'', JObj [(''Content-Type'', JStr ''application/json'')]), (''body'', JStr b2)]"
    from k [unfolded o] have "e1 = e2 \<and> b1 = b2" by (rule cacheKey_post_post)
    with o show ?thesis by simp
  qed
  with d show False by simp
qed

theorem cache_key_injective_witness:
  "tool_request (JStr ''github_get_repository'') repo_args = Inr (''/repos/acme/widgets'', JObj [])
   \<and> tool_request (JStr ''github_create_issue'') issue_args =
       Inr (''/repos/acme/widgets/issues'', issue_options)
   \<and> (''/repos/acme/widgets'', JObj []) \<noteq> (''/repos/acme/widgets/issues'', issue_options)
   \<and> cacheKey (baseURL @ ''/repos/acme/widgets'') (JObj []) \<noteq>
       cacheKey (baseURL @ ''/repos/acme/widgets/issues'') issue_options"
proof -
  have d: "(''/repos/acme/widgets'', JObj []) \<noteq> (''/repos/acme/widgets/issues'', issue_options)"
    by simp
  from cache_key_injective [OF repo_request issue_request d] repo_request issue_request d
  show ?thesis by simp
qed

subsection \<open>C3: a tool name outside the registry\<close>

text \<open>
  C3, as amended. For a tool name that is not in the registry, a call-tool request fails
  with the message \<open>Unknown tool: <name>\<close> and leaves the server state as it was: no
  backend call, no cache write. Under the JSON-RPC framing the failure is an error
  envelope with the code -32000, the code of every failure of a tool call; under the
  direct-call framing it is an error content block with \<open>isError\<close> set.
\<close>

theorem unknown_tool_rejected:
  assumes "n \<notin> set tool_names"
  shows "handleJsonRpcRequest env s (rpc_call ident (JStr n) args) =
           (Inr (rpc_error ident (- 32000) (''Unknown tool: '' @ n)), s)
       \<and> post_mcp_tools_call env s (direct_call (JStr n) args) =
           (error_block (''Unknown tool: '' @ n), s)"
proof -
  from assms have "JStr n \<notin> JStr ` set tool_names" by (simp add: image_iff)
  then have "tool_switch env s (JStr n) args = (Inl (''Unknown tool: '' @ n), s)"
    unfolding tool_switch_unknown [OF \<open>JStr n \<notin> JStr ` set tool_names\<close>] unknown_message by simp
  then show ?thesis by (simp add: rpc_call_switch direct_call_switch)
qed

theorem unknown_tool_rejected_witness:
  "''nope'' \<notin> set tool_names
   \<and> handleJsonRpcRequest demo_env started (rpc_call (JNum 1) (JStr ''nope'') (JObj [])) =
       (Inr (rpc_error (JNum 1) (- 32000) ''Unknown tool: nope''), started)
   \<and> post_mcp_tools_call demo_env started (direct_call (JStr ''nope'') (JObj [])) =
       (error_block ''Unknown tool: nope'', started)"
  using unknown_tool_rejected [of "''nope''" demo_env started "JNum 1" "JObj []"]
  by (simp add: tool_names_eq)

text \<open>
  C3, as stated, asks for the method-not-found condition under the JSON-RPC framing. The
  handler keeps the code -32601 and the message \<open>Method not found\<close> for a message whose
  \<open>method\<close> it does not know; an unknown tool gets the code -32000.
\<close>

theorem unknown_tool_code_counterexample:
  "fst (handleJsonRpcRequest demo_env started (rpc_call (JNum 1) (JStr ''nope'') (JObj []))) =
     Inr (rpc_error (JNum 1) (- 32000) ''Unknown tool: nope'')
   \<and> fst (handleJsonRpcRequest demo_env started (rpc_call (JNum 1) (JStr ''nope'') (JObj []))) \<noteq>
     Inr (rpc_error (JNum 1) (- 32601) ''Method not found'')"
  by (simp add: rpc_call_switch tool_switch_def tpl_def rpc_error_def)

subsection \<open>C4: a cache entry is served while it is younger than 60 seconds\<close>

text \<open>
  C4. The cache yields a stored value for a key exactly when an entry for the key exists
  and \<open>now - timestamp < 60000\<close> ms; then \<open>makeRequest\<close> returns that value and leaves
  the state alone. When the key was never written or the entry is 60 seconds old or
  older, \<open>makeRequest\<close> calls the backend afresh, whatever the arguments were before.
\<close>

theorem cache_get_valid_window:
  assumes "fetch_init env options = Inr init"
  shows "(\<forall>v. cache_lookup s (cacheKey (baseURL @ endpoint) options) = Some v \<longleftrightarrow>
            (\<exists>e. cache s (cacheKey (baseURL @ endpoint) options) = Some e \<and>
                 now s - timestamp e < 60000 \<and> data e = v))
       \<and> (\<forall>v. cache_lookup s (cacheKey (baseURL @ endpoint) options) = Some v \<longrightarrow>
            makeRequest env s endpoint options = (Inr v, s))
       \<and> (cache_lookup s (cacheKey (baseURL @ endpoint) options) = None \<longrightarrow>
            fetches (snd (makeRequest env s endpoint options)) =
              fetches s @ [(baseURL @ endpoint, init)])"
proof (intro conjI allI impI)
  fix v
  show "cache_lookup s (cacheKey (baseURL @ endpoint) options) = Some v \<longleftrightarrow>
            (\<exists>e. cache s (cacheKey (baseURL @ endpoint) options) = Some e \<and>
                 now s - timestamp e < 60000 \<and> data e = v)"
    by (auto simp: cache_lookup_def CACHE_DURATION_def split: option.splits if_splits)
next
  fix v
  assume "cache_lookup s (cacheKey (baseURL @ endpoint) options) = Some v"
  then show "makeRequest env s endpoint options = (Inr v, s)" by (rule makeRequest_hit)
next
  assume "cache_lookup s (cacheKey (baseURL @ endpoint) options) = None"
  with assms show "fetches (snd (makeRequest env s endpoint options)) =
              fetches s @ [(baseURL @ endpoint, init)]"
    by (simp add: makeRequest_def Let_def split: prod.splits fetch_result.splits sum.splits)
qed

theorem cache_get_valid_window_witness:
  "fetch_init demo_env (JObj []) = Inr (default_init demo_env)
   \<and> makeRequest demo_env (warm 59999) ''/repos/acme/widgets'' (JObj []) =
       (Inr demo_payload, warm 59999)
   \<and> cache_lookup (warm 60000) (cacheKey (baseURL @ ''/repos/acme/widgets'') (JObj [])) = None
   \<and> fetches (snd (makeRequest demo_env (warm 60000) ''/repos/acme/widgets'' (JObj []))) =
       [(baseURL @ ''/repos/acme/widgets'', default_init demo_env)]"
  using cache_get_valid_window [of demo_env "JObj []" "default_init demo_env" "warm 59999"
      "''/repos/acme/widgets''"]
    cache_get_valid_window [of demo_env "JObj []" "default_init demo_env" "warm 60000"
      "''/repos/acme/widgets''"]
  by (simp add: fetch_init_def default_init_def spread_def ebind_def cache_lookup_def warm_def
      CACHE_DURATION_def)

subsection \<open>C5: a repeated call within the window\<close>




subsection \<open>C6: a backend failure is an error reply and leaves the cache alone\<close>



subsection \<open>C7: the life of a streaming session\<close>

text \<open>
  C7. Let \<open>uuidv4\<close> never return the same identifier twice, and let a connection
  \<open>c\<close> that nothing refers to yet open a stream on a server in a reachable state. Then
  the identifier generated for it names no other session, the session is registered and
  one handshake frame is written. While other clients come and go and time passes, the
  session stays registered and after \<open>d\<close> milliseconds \<open>d div 30000\<close> keepalive
  frames have followed the handshake: one every 30 seconds. Once the close of \<open>c\<close> is
  observed, the identifier is gone from \<open>sessions\<close>, the interval is cleared, and
  whatever happens later, short of \<open>c\<close> connecting again, no frame is written to it.
\<close>

theorem session_lifecycle:
  assumes i: "inj (uuidv4 env)" and wf: "sse_wf env st" and n: "new_connection st c"
    and e: "\<not> list_ex (concerns c) evs" and la: "Connect c \<notin> set later"
  shows "uuidv4 env (uuid_count st) \<notin> dom (sessions st)
       \<and> sessions (sse_open env st c) (uuidv4 env (uuid_count st)) =
           Some \<lparr>session_res = c, session_id = uuidv4 env (uuid_count st)\<rparr>
       \<and> written (sse_open env st c) c = written st c @ [handshake env]
       \<and> sessions (sse_run env (sse_open env st c) evs) (uuidv4 env (uuid_count st)) =
           Some \<lparr>session_res = c, session_id = uuidv4 env (uuid_count st)\<rparr>
       \<and> written (sse_run env (sse_open env st c) evs) c =
           written st c @ [handshake env] @ replicate (duration evs div 30000) ping
       \<and> sessions (sse_close (sse_run env (sse_open env st c) evs) c) (uuidv4 env (uuid_count st)) = None
       \<and> (\<forall>(t, tm) \<in> set (timers (sse_close (sse_run env (sse_open env st c) evs) c)).
             t \<noteq> timer_count st \<and> target tm \<noteq> c)
       \<and> written (sse_run env (sse_close (sse_run env (sse_open env st c) evs) c) later) c =
           written (sse_run env (sse_open env st c) evs) c"
proof -
  let ?sid = "uuidv4 env (uuid_count st)"
  let ?opened = "sse_open env st c"
  let ?live = "sse_run env ?opened evs"
  let ?closed = "sse_close ?live c"
  note o = live_session_open [OF i wf n]
  from live_session_run [OF i sse_wf_open [OF wf] o e]
  have l: "live_session c (timer_count st) ?sid (written st c @ [handshake env]) (duration evs) ?live"
    by simp
  note cl = live_session_close [OF l]
  from cl(2) have "quiet ?closed c" by (auto simp: quiet_def)
  from quiet_run [OF this la] cl(3)
  have "written (sse_run env ?closed later) c = written ?live c" by simp
  moreover have "?sid \<notin> dom (sessions st)" by (rule fresh_session_id [OF i wf])
  moreover from o have "sessions ?opened ?sid = Some \<lparr>session_res = c, session_id = ?sid\<rparr>"
    "written ?opened c = written st c @ [handshake env]"
    by (simp_all add: live_session_def)
  moreover from l have "sessions ?live ?sid = Some \<lparr>session_res = c, session_id = ?sid\<rparr>"
    "written ?live c = written st c @ [handshake env] @ replicate (duration evs div 30000) ping"
    by (simp_all add: live_session_def)
  ultimately show ?thesis using cl(1) cl(2) by simp
qed

theorem session_lifecycle_witness:
  "inj (uuidv4 demo_env) \<and> sse_wf demo_env sse_started \<and> new_connection sse_started 0
   \<and> \<not> list_ex (concerns 0) [Elapse 65000]
   \<and> Connect 0 \<notin> set [Elapse 60000, Connect 1, Elapse 1000]
   \<and> sessions (sse_open demo_env sse_started 0) ''u'' = Some \<lparr>session_res = 0, session_id = ''u''\<rparr>
   \<and> sessions (sse_run demo_env (sse_open demo_env sse_started 0) [Elapse 65000]) ''u'' =
       Some \<lparr>session_res = 0, session_id = ''u''\<rparr>
   \<and> written (sse_run demo_env (sse_open demo_env sse_started 0) [Elapse 65000]) 0 =
       [handshake demo_env, ping, ping]
   \<and> sessions (sse_close (sse_run demo_env (sse_open demo_env sse_started 0) [Elapse 65000]) 0) ''u'' = None
   \<and> written (sse_run demo_env
        (sse_close (sse_run demo_env (sse_open demo_env sse_started 0) [Elapse 65000]) 0)
        [Elapse 60000, Connect 1, Elapse 1000]) 0 =
       [handshake demo_env, ping, ping]"
proof -
  have wf: "sse_wf demo_env sse_started" by (simp add: sse_wf_def sse_started_def)
  have n: "new_connection sse_started 0" by (simp add: new_connection_def sse_started_def)
  have e: "\<not> list_ex (concerns 0) [Elapse 65000]" by simp
  have la: "Connect 0 \<notin> set [Elapse 60000, Connect 1, Elapse 1000]" by simp
  have u: "uuidv4 demo_env (uuid_count sse_started) = ''u''" by (simp add: demo_env_def sse_started_def)
  have w: "written sse_started 0 = []" by (simp add: sse_started_def)
  have d: "replicate (duration [Elapse 65000] div 30000) ping = [ping, ping]"
    by (simp add: numeral_2_eq_2)
  from session_lifecycle [OF demo_uuid_inj wf n e la, unfolded u w d] demo_uuid_inj wf n e la
  show ?thesis by simp
qed

subsection \<open>C8: creating an issue goes through the cache\<close>

text \<open>
  C8. A \<open>github_create_issue\<close> call that misses the cache sends one POST request and
  caches the created issue. A second call with the same arguments within 60 seconds of
  that write sends no request, leaves the state alone and returns the reply of the
  first call, under either framing.
\<close>

theorem create_issue_served_from_cache:
  assumes req: "tool_request (JStr ''github_create_issue'') args = Inr (endpoint, options)"
    and miss: "cache_lookup s (cacheKey (baseURL @ endpoint) options) = None"
    and init: "fetch_init env options = Inr init"
    and resp: "backend env (length (fetches s)) (baseURL @ endpoint) init =
                 (Response st txt (Inr issue), ms)"
    and ok: "response_ok st"
    and window: "t2 - (now s + int ms) < CACHE_DURATION"
  shows "\<exists>s1.
           snd (handleJsonRpcRequest env s (rpc_call ident (JStr ''github_create_issue'') args)) = s1
         \<and> get_prop init ''method'' = Inr (JStr ''POST'')
         \<and> fetches s1 = fetches s @ [(baseURL @ endpoint, init)]
         \<and> handleJsonRpcRequest env (s1\<lparr>now := t2\<rparr>) (rpc_call ident (JStr ''github_create_issue'') args) =
             (fst (handleJsonRpcRequest env s (rpc_call ident (JStr ''github_create_issue'') args)),
              s1\<lparr>now := t2\<rparr>)
         \<and> post_mcp_tools_call env (s1\<lparr>now := t2\<rparr>) (direct_call (JStr ''github_create_issue'') args) =
             (fst (post_mcp_tools_call env s (direct_call (JStr ''github_create_issue'') args)),
              s1\<lparr>now := t2\<rparr>)"
proof -
  define s1 where "s1 = s\<lparr>fetches := fetches s @ [(baseURL @ endpoint, init)], now := now s + int ms,
     cache := (cache s)(cacheKey (baseURL @ endpoint) options \<mapsto>
        \<lparr>data = issue, timestamp = now s + int ms\<rparr>)\<rparr>"
  from ok have first: "makeRequest env s endpoint options = (Inr issue, s1)"
    unfolding makeRequest_miss [OF miss init resp] s1_def by (simp add: Let_def)
  have entry: "cache s1 (cacheKey (baseURL @ endpoint) options) =
      Some \<lparr>data = issue, timestamp = now s + int ms\<rparr>"
    by (simp add: s1_def)
  from window have w: "t2 - timestamp \<lparr>data = issue, timestamp = now s + int ms\<rparr> < CACHE_DURATION"
    by simp
  note sw = switch_again [OF req first entry w]
  from create_issue_options [OF req] init have m: "get_prop init ''method'' = Inr (JStr ''POST'')"
    by (auto simp: fetch_init_post)
  have f: "fetches s1 = fetches s @ [(baseURL @ endpoint, init)]" by (simp add: s1_def)
  have "snd (handleJsonRpcRequest env s (rpc_call ident (JStr ''github_create_issue'') args)) = s1
         \<and> get_prop init ''method'' = Inr (JStr ''POST'')
         \<and> fetches s1 = fetches s @ [(baseURL @ endpoint, init)]
         \<and> handleJsonRpcRequest env (s1\<lparr>now := t2\<rparr>) (rpc_call ident (JStr ''github_create_issue'') args) =
             (fst (handleJsonRpcRequest env s (rpc_call ident (JStr ''github_create_issue'') args)),
              s1\<lparr>now := t2\<rparr>)
         \<and> post_mcp_tools_call env (s1\<lparr>now := t2\<rparr>) (direct_call (JStr ''github_create_issue'') args) =
             (fst (post_mcp_tools_call env s (direct_call (JStr ''github_create_issue'') args)),
              s1\<lparr>now := t2\<rparr>)"
    unfolding rpc_call_outcome [OF sw(1)] rpc_call_outcome [OF sw(2)]
      direct_call_outcome [OF sw(1)] direct_call_outcome [OF sw(2)]
    using m f by simp
  then show ?thesis by (rule exI)
qed

theorem create_issue_served_from_cache_witness:
  "tool_request (JStr ''github_create_issue'') issue_args =
     Inr (''/repos/acme/widgets/issues'', issue_options)
   \<and> cache_lookup started (cacheKey (baseURL @ ''/repos/acme/widgets/issues'') issue_options) = None
   \<and> fetch_init demo_env issue_options = Inr issue_init
   \<and> backend demo_env (length (fetches started)) (baseURL @ ''/repos/acme/widgets/issues'') issue_init =
        (Response 200 ''OK'' (Inr demo_payload), 7)
   \<and> response_ok 200
   \<and> 30000 - (now started + int 7) < CACHE_DURATION
   \<and> get_prop issue_init ''method'' = Inr (JStr ''POST'')
   \<and> fetches (snd (handleJsonRpcRequest demo_env
        ((snd (handleJsonRpcRequest demo_env started
            (rpc_call (JNum 1) (JStr ''github_create_issue'') issue_args)))\<lparr>now := 30000\<rparr>)
        (rpc_call (JNum 1) (JStr ''github_create_issue'') issue_args))) =
       [(baseURL @ ''/repos/acme/widgets/issues'', issue_init)]
   \<and> fst (handleJsonRpcRequest demo_env
        ((snd (handleJsonRpcRequest demo_env started
            (rpc_call (JNum 1) (JStr ''github_create_issue'') issue_args)))\<lparr>now := 30000\<rparr>)
        (rpc_call (JNum 1) (JStr ''github_create_issue'') issue_args)) =
     fst (handleJsonRpcRequest demo_env started
            (rpc_call (JNum 1) (JStr ''github_create_issue'') issue_args))"
proof -
  have resp: "backend demo_env (length (fetches started)) (baseURL @ ''/repos/acme/widgets/issues'')
       issue_init = (Response 200 ''OK'' (Inr demo_payload), 7)"
    by (simp add: demo_env_def)
  have ok: "response_ok 200" by (simp add: response_ok_def)
  have window: "30000 - (now started + int 7) < CACHE_DURATION"
    by (simp add: started_def CACHE_DURATION_def)
  from create_issue_served_from_cache
    [OF issue_request started_miss issue_fetch_init resp ok window, of "JNum 1"]
  obtain s1 where
    h: "snd (handleJsonRpcRequest demo_env started
          (rpc_call (JNum 1) (JStr ''github_create_issue'') issue_args)) = s1"
       "get_prop issue_init ''method'' = Inr (JStr ''POST'')"
       "fetches s1 = fetches started @ [(baseURL @ ''/repos/acme/widgets/issues'', issue_init)]"
       "handleJsonRpcRequest demo_env (s1\<lparr>now := 30000\<rparr>)
          (rpc_call (JNum 1) (JStr ''github_create_issue'') issue_args) =
        (fst (handleJsonRpcRequest demo_env started
               (rpc_call (JNum 1) (JStr ''github_create_issue'') issue_args)), s1\<lparr>now := 30000\<rparr>)"
    by (elim exE conjE) (rule that)
  have f: "fetches started = []" by (simp add: started_def)
  show ?thesis
    unfolding h(1) h(4) using issue_request started_miss issue_fetch_init resp ok window h(2) h(3) f
    by simp
qed

subsection \<open>C9: every JSON-RPC reply is correlated with its request\<close>

text \<open>
  C9. Whatever the input message, a reply of \<open>handleJsonRpcRequest\<close>, result or error
  envelope, carries \<open>jsonrpc\<close> equal to \<open>"2.0"\<close> and the \<open>id\<close> of the message.
  The same holds of the response of \<open>POST /sse\<close>, which also answers when the handler
  throws, and every message that is not \<open>undefined\<close> or \<open>null\<close> gets such a
  response.
\<close>

theorem rpc_reply_correlated:
  "(handleJsonRpcRequest env s message = (Inr reply, s') \<longrightarrow>
      get_prop reply ''jsonrpc'' = Inr (JStr ''2.0'') \<and> get_prop reply ''id'' = get_prop message ''id'')
   \<and> (post_sse env s message = (Inr resp, s'') \<longrightarrow>
      get_prop (json resp) ''jsonrpc'' = Inr (JStr ''2.0'') \<and>
      get_prop (json resp) ''id'' = get_prop message ''id'')
   \<and> (message \<noteq> JUndefined \<and> message \<noteq> JNull \<longrightarrow>
      (\<exists>resp s3. post_sse env s message = (Inr resp, s3)))"
proof (intro conjI impI)
  assume h: "handleJsonRpcRequest env s message = (Inr reply, s')"
  from handler_reply_shape [OF h] obtain ident member where
    "get_prop message ''id'' = Inr ident" "reply = JObj [(''jsonrpc'', JStr ''2.0''), (''id'', ident), member]"
    by blast
  then show "get_prop reply ''jsonrpc'' = Inr (JStr ''2.0'')" "get_prop reply ''id'' = get_prop message ''id''"
    by simp_all
next
  assume p: "post_sse env s message = (Inr resp, s'')"
  obtain r s1 where h: "handleJsonRpcRequest env s message = (r, s1)" by (cases "handleJsonRpcRequest env s message")
  have "\<exists>ident member. get_prop message ''id'' = Inr ident \<and>
           json resp = JObj [(''jsonrpc'', JStr ''2.0''), (''id'', ident), member]"
  proof (cases r)
    case (Inr reply)
    with h handler_reply_shape have "\<exists>ident member. get_prop message ''id'' = Inr ident \<and>
           reply = JObj [(''jsonrpc'', JStr ''2.0''), (''id'', ident), member]" by simp
    moreover from p h Inr have "json resp = reply" by (auto simp: post_sse_def)
    ultimately show ?thesis by simp
  next
    case (Inl e)
    with p h show ?thesis by (auto simp: post_sse_def split: sum.splits)
  qed
  then obtain ident member where
    "get_prop message ''id'' = Inr ident" "json resp = JObj [(''jsonrpc'', JStr ''2.0''), (''id'', ident), member]"
    by blast
  then show "get_prop (json resp) ''jsonrpc'' = Inr (JStr ''2.0'')"
    "get_prop (json resp) ''id'' = get_prop message ''id''" by simp_all
next
  assume m: "message \<noteq> JUndefined \<and> message \<noteq> JNull"
  then obtain ident where "get_prop message ''id'' = Inr ident" using destructure_total by blast
  then show "\<exists>resp s3. post_sse env s message = (Inr resp, s3)"
    by (auto simp: post_sse_def split: sum.splits prod.splits)
qed

theorem rpc_reply_correlated_witness:
  "handleJsonRpcRequest demo_env started
      (JObj [(''jsonrpc'', JStr ''2.0''), (''id'', JNum 42), (''method'', JStr ''nothing'')]) =
     (Inr (rpc_error (JNum 42) (- 32601) ''Method not found''), started)
   \<and> post_sse demo_env started
      (JObj [(''jsonrpc'', JStr ''2.0''), (''id'', JNum 42), (''method'', JStr ''nothing'')]) =
     (Inr \<lparr>status = 200, json = rpc_error (JNum 42) (- 32601) ''Method not found''\<rparr>, started)
   \<and> get_prop (rpc_error (JNum 42) (- 32601) ''Method not found'') ''jsonrpc'' = Inr (JStr ''2.0'')
   \<and> get_prop (rpc_error (JNum 42) (- 32601) ''Method not found'') ''id'' = Inr (JNum 42)"
  using rpc_reply_correlated [of demo_env started
      "JObj [(''jsonrpc'', JStr ''2.0''), (''id'', JNum 42), (''method'', JStr ''nothing'')]"
      "rpc_error (JNum 42) (- 32601) ''Method not found''" started
      "\<lparr>status = 200, json = rpc_error (JNum 42) (- 32601) ''Method not found''\<rparr>" started]
  by (simp add: handleJsonRpcRequest_def post_sse_def destructure_def rpc_error_def)

subsection \<open>C10: a path that is not a file is cached all the same\<close>

text \<open>
  C10. When a \<open>github_get_file_content\<close> call misses the cache and the backend answers
  2xx with a payload whose \<open>type\<close> is not \<open>'file'\<close>, the call ends in the error
  \<open>Path is not a file\<close> under either framing, and the payload is in the cache under the
  key of the request, stamped with the time of the write.
\<close>

theorem not_a_file_still_cached:
  assumes req: "tool_request (JStr ''github_get_file_content'') args = Inr (endpoint, options)"
    and miss: "cache_lookup s (cacheKey (baseURL @ endpoint) options) = None"
    and init: "fetch_init env options = Inr init"
    and resp: "backend env (length (fetches s)) (baseURL @ endpoint) init =
                 (Response st txt (Inr payload), ms)"
    and ok: "response_ok st"
    and ty: "get_prop payload ''type'' = Inr ty" "ty \<noteq> JStr ''file''"
  shows "\<exists>s1.
           handleJsonRpcRequest env s (rpc_call ident (JStr ''github_get_file_content'') args) =
             (Inr (rpc_error ident (- 32000) ''Path is not a file''), s1)
         \<and> post_mcp_tools_call env s (direct_call (JStr ''github_get_file_content'') args) =
             (error_block ''Path is not a file'', s1)
         \<and> fetches s1 = fetches s @ [(baseURL @ endpoint, init)]
         \<and> cache s1 (cacheKey (baseURL @ endpoint) options) =
             Some \<lparr>data = payload, timestamp = now s + int ms\<rparr>"
proof -
  define s1 where "s1 = s\<lparr>fetches := fetches s @ [(baseURL @ endpoint, init)], now := now s + int ms,
     cache := (cache s)(cacheKey (baseURL @ endpoint) options \<mapsto>
        \<lparr>data = payload, timestamp = now s + int ms\<rparr>)\<rparr>"
  from ok have "makeRequest env s endpoint options = (Inr payload, s1)"
    unfolding makeRequest_miss [OF miss init resp] s1_def by (simp add: Let_def)
  from switch_request_ok [OF req this] ty
  have sw: "tool_switch env s (JStr ''github_get_file_content'') args = (Inl ''Path is not a file'', s1)"
    by (simp add: format_get_file_content format_file_def)
  have "fetches s1 = fetches s @ [(baseURL @ endpoint, init)]"
    "cache s1 (cacheKey (baseURL @ endpoint) options) = Some \<lparr>data = payload, timestamp = now s + int ms\<rparr>"
    by (simp_all add: s1_def)
  then show ?thesis
    using rpc_call_thrown [OF sw] direct_call_thrown [OF sw] by blast
qed

theorem not_a_file_still_cached_witness:
  "tool_request (JStr ''github_get_file_content'') path_args =
     Inr (''/repos/acme/widgets/contents/src?ref=main'', JObj [])
   \<and> backend demo_env (length (fetches started)) (baseURL @ ''/repos/acme/widgets/contents/src?ref=main'')
       (default_init demo_env) = (Response 200 ''OK'' (Inr demo_payload), 7)
   \<and> response_ok 200
   \<and> get_prop demo_payload ''type'' = Inr (JStr ''dir'') \<and> JStr ''dir'' \<noteq> JStr ''file''
   \<and> fst (handleJsonRpcRequest demo_env started
        (rpc_call (JNum 1) (JStr ''github_get_file_content'') path_args)) =
       Inr (rpc_error (JNum 1) (- 32000) ''Path is not a file'')
   \<and> cache (snd (handleJsonRpcRequest demo_env started
        (rpc_call (JNum 1) (JStr ''github_get_file_content'') path_args)))
        (cacheKey (baseURL @ ''/repos/acme/widgets/contents/src?ref=main'') (JObj [])) =
       Some \<lparr>data = demo_payload, timestamp = 1007\<rparr>"
proof -
  have resp: "backend demo_env (length (fetches started)) (baseURL @ ''/repos/acme/widgets/contents/src?ref=main'')
       (default_init demo_env) = (Response 200 ''OK'' (Inr demo_payload), 7)"
    by (simp add: demo_env_def)
  have ok: "response_ok 200" by (simp add: response_ok_def)
  have ty: "get_prop demo_payload ''type'' = Inr (JStr ''dir'')" "JStr ''dir'' \<noteq> JStr ''file''"
    by (simp_all add: demo_payload_def)
  from not_a_file_still_cached [OF path_request started_miss fetch_init_default resp ok ty, of "JNum 1"]
  obtain s1 where
    h: "handleJsonRpcRequest demo_env started
          (rpc_call (JNum 1) (JStr ''github_get_file_content'') path_args) =
          (Inr (rpc_error (JNum 1) (- 32000) ''Path is not a file''), s1)"
       "cache s1 (cacheKey (baseURL @ ''/repos/acme/widgets/contents/src?ref=main'') (JObj [])) =
          Some \<lparr>data = demo_payload, timestamp = now started + int 7\<rparr>"
    by (elim exE conjE) (rule that)
  from h path_request resp ok ty show ?thesis by (simp add: started_def)
qed

end
